theory Spec2Isabelle
  imports Main "HOL-Library.Sublist"
begin

section \<open>Strings and JavaScript values\<close>

text \<open>
  Strings are \<^typ>\<open>string\<close>. A thrown value is modelled by its message, so a call that
  can throw returns \<open>string + 'a\<close> with \<open>Inl\<close> the message. Argument objects of tool calls
  are opaque to the program and are carried as serialised JSON text. Messages that the
  source writes in Korean are given as their UTF-8 bytes.
\<close>

type_synonym json = string

definition bytes :: "nat list \<Rightarrow> string" where
  "bytes ns = map char_of ns"

text \<open>\<open>String.prototype.includes\<close>.\<close>

fun str_includes :: "string \<Rightarrow> string \<Rightarrow> bool" where
  "str_includes [] sub = (sub = [])"
| "str_includes (c # cs) sub = (prefix sub (c # cs) \<or> str_includes cs sub)"

text \<open>\<open>Array.prototype.join\<close>.\<close>

fun join :: "string \<Rightarrow> string list \<Rightarrow> string" where
  "join sep [] = []"
| "join sep [s] = s"
| "join sep (s # t # ss) = s @ sep @ join sep (t # ss)"

text \<open>\<open>s.substring(a, b)\<close> for \<open>a \<le> b\<close>.\<close>

definition substring :: "nat \<Rightarrow> nat \<Rightarrow> string \<Rightarrow> string" where
  "substring a b s = take (b - a) (drop a s)"

text \<open>\<open>s.toLowerCase()\<close> on the ASCII letters.\<close>

definition lowerChar :: "char \<Rightarrow> char" where
  "lowerChar c =
     (if (65::nat) \<le> of_char c \<and> of_char c \<le> (90::nat) then char_of (of_char c + (32::nat)) else c)"

definition toLowerCase :: "string \<Rightarrow> string" where
  "toLowerCase s = map lowerChar s"

text \<open>The decimal text of a number, as a template literal prints \<open>Date.now()\<close>.\<close>

fun digits :: "nat \<Rightarrow> string" where
  "digits n = (if n < 10 then [char_of (48 + n)] else digits (n div 10) @ [char_of (48 + n mod 10)])"

definition showInt :: "int \<Rightarrow> string" where
  "showInt i = (if i < 0 then CHR ''-'' # digits (nat (- i)) else digits (nat i))"

text \<open>\<open>v || d\<close> on an optional string: undefined and the empty string are falsy.\<close>

fun orElse :: "string option \<Rightarrow> string \<Rightarrow> string" where
  "orElse None d = d"
| "orElse (Some s) d = (if s = [] then d else s)"

fun truthy :: "string option \<Rightarrow> bool" where
  "truthy None = False"
| "truthy (Some s) = (s \<noteq> [])"

section \<open>Types of \<open>@/app/types\<close>\<close>

datatype MCPTransportType = Stdio | Sse | StreamableHttp | OtherTransport string

text \<open>
  \<open>MCPServerConfig\<close>; \<open>description\<close> and \<open>headers\<close> are never read by the connection
  manager and are left out. The configuration arrives as request JSON, so the transport
  can be a string outside the three declared ones (\<open>OtherTransport\<close>).
\<close>

record MCPServerConfig =
  cfg_id :: string
  cfg_name :: string
  cfg_transport :: MCPTransportType
  cfg_command :: "string option"
  cfg_args :: "string list option"
  cfg_env :: "(string \<rightharpoonup> string) option"
  cfg_url :: "string option"

record SchemaProp =
  sp_type :: "string option"
  sp_description :: "string option"

record InputSchema =
  is_type :: string
  is_properties :: "(string \<times> SchemaProp) list option"
  is_required :: "string list option"

record MCPTool =
  tool_name :: string
  tool_description :: "string option"
  tool_inputSchema :: InputSchema

record ContentItem =
  c_type :: string
  c_text :: "string option"
  c_data :: "string option"
  c_mimeType :: "string option"
  c_url :: "string option"

record MCPToolCallResult =
  r_content :: "ContentItem list"
  r_isError :: "bool option"

datatype ToolCallStatus = Pending | Running | Success | Error

record ToolCall =
  tc_id :: string
  tc_serverId :: string
  tc_serverName :: string
  tc_toolName :: string
  tc_args :: json
  tc_status :: ToolCallStatus
  tc_result :: "MCPToolCallResult option"
  tc_error :: "string option"
  tc_startTime :: "int option"
  tc_endTime :: "int option"

record EnabledTool =
  et_serverId :: string
  et_serverName :: string
  et_toolName :: string

section \<open>The wire shape of a tool result\<close>

record WireResource =
  wr_text :: "string option"
  wr_mimeType :: "string option"

record WireContent =
  w_type :: string
  w_text :: "string option"
  w_data :: "string option"
  w_mimeType :: "string option"
  w_resource :: "WireResource option"

record WireResult =
  wire_content :: "WireContent list"
  wire_isError :: "bool option"

section \<open>The connection manager's state and its collaborators\<close>

datatype Transport =
    StdioClientTransport string "string list" "string \<rightharpoonup> string"
  | SSEClientTransport string
  | StreamableHTTPClientTransport string

text \<open>
  \<open>MCPClientInstance\<close>. The protocol client is an opaque object made for this transport
  and configuration; the collaborator calls on it take the instance.
\<close>

record MCPClientInstance =
  inst_transport :: Transport
  inst_config :: MCPServerConfig

text \<open>
  The registry \<open>clients\<close> is a JavaScript \<open>Map\<close>: an association list in insertion order
  with distinct keys.
\<close>

type_synonym registry = "(string \<times> MCPClientInstance) list"

definition map_has :: "(string \<times> 'v) list \<Rightarrow> string \<Rightarrow> bool" where
  "map_has m k = (map_of m k \<noteq> None)"

definition map_set :: "(string \<times> 'v) list \<Rightarrow> string \<Rightarrow> 'v \<Rightarrow> (string \<times> 'v) list" where
  "map_set m k v =
     (if map_has m k then map (\<lambda>(k', v'). if k' = k then (k', v) else (k', v')) m
      else m @ [(k, v)])"

definition map_delete :: "(string \<times> 'v) list \<Rightarrow> string \<Rightarrow> (string \<times> 'v) list" where
  "map_delete m k = filter (\<lambda>(k', v'). k' \<noteq> k) m"

definition map_keys :: "(string \<times> 'v) list \<Rightarrow> string list" where
  "map_keys m = map fst m"

text \<open>
  The state of the process: the manager's registry and the state \<open>ext\<close> of everything
  outside the program (tool servers, the model provider, the artifact store, the clock).
\<close>

record 'x world =
  clients :: registry
  ext :: 'x

record FunctionCall =
  fc_name :: string
  fc_args :: json

datatype ResponsePayload = ErrorPayload string | ResultPayload string

record FunctionResponse =
  fr_name :: string
  fr_response :: ResponsePayload

datatype ChatMessage = UserText string | FunctionResponses "FunctionResponse list"

text \<open>
  A response of the model: what \<open>response.functionCalls()\<close> returns (undefined or an
  array) and what \<open>response.text()\<close> returns.
\<close>

record ModelResponse =
  functionCalls :: "FunctionCall list option"
  responseText :: string

record GeminiProp =
  gp_type :: string
  gp_description :: "string option"

record GeminiParameters =
  par_type :: string
  par_properties :: "(string \<times> GeminiProp) list"
  par_required :: "string list"

record GeminiFunctionDeclaration =
  fd_name :: string
  fd_description :: string
  fd_parameters :: GeminiParameters

text \<open>
  The chat session returned by \<open>model.startChat\<close>: the declared tools, the prior turns
  (role and text), and every exchange made through \<open>chat.sendMessage\<close> so far, oldest
  first, each with the message sent and what came back.
\<close>

record ChatSession =
  chat_tools :: "GeminiFunctionDeclaration list option"
  chat_history :: "(string \<times> string) list"
  chat_exchanges :: "(ChatMessage \<times> (string + ModelResponse)) list"

record UploadResponse =
  up_data :: "string option"
  up_error :: "string option"

text \<open>
  The collaborators, as functions on the external state. \<open>Inl\<close> is a thrown error.
  \<^item> \<open>processEnv\<close>: \<open>process.env\<close>; \<open>now\<close>: \<open>Date.now()\<close>; \<open>random36\<close>:
    \<open>Math.random().toString(36)\<close>; \<open>urlParses\<close>: whether \<open>new URL(s)\<close> succeeds.
  \<^item> \<open>clientConnect\<close>, \<open>clientClose\<close>, \<open>clientListTools\<close>, \<open>clientCallTool\<close>: the
    methods of the protocol client of an instance.
  \<^item> \<open>generateContent\<close>: the model provider's answer to a message sent in a chat session.
  \<^item> \<open>storageUpload\<close> (bucket, file name, content, content type) and
    \<open>storagePublicUrl\<close> (bucket, file name): the storage client.
\<close>

record 'x env =
  processEnv :: "'x \<Rightarrow> string \<rightharpoonup> string"
  now :: "'x \<Rightarrow> int"
  random36 :: "'x \<Rightarrow> string \<times> 'x"
  urlParses :: "string \<Rightarrow> bool"
  clientConnect :: "'x \<Rightarrow> MCPClientInstance \<Rightarrow> (string + unit) \<times> 'x"
  clientClose :: "'x \<Rightarrow> MCPClientInstance \<Rightarrow> (string + unit) \<times> 'x"
  clientListTools :: "'x \<Rightarrow> MCPClientInstance \<Rightarrow> (string + MCPTool list) \<times> 'x"
  clientCallTool :: "'x \<Rightarrow> MCPClientInstance \<Rightarrow> string \<Rightarrow> json \<Rightarrow> (string + WireResult) \<times> 'x"
  generateContent :: "'x \<Rightarrow> ChatSession \<Rightarrow> ChatMessage \<Rightarrow> (string + ModelResponse) \<times> 'x"
  storageUpload :: "'x \<Rightarrow> string \<Rightarrow> string \<Rightarrow> string \<Rightarrow> string \<Rightarrow> (string + UploadResponse) \<times> 'x"
  storagePublicUrl :: "'x \<Rightarrow> string \<Rightarrow> string \<Rightarrow> string option"

text \<open>
  A collaborator call made from a state of the process. It changes the external state
  only: one request is followed at a time, so between its steps the registry is changed
  by \<open>connect\<close> and \<open>disconnect\<close> alone.
\<close>

definition callExt :: "('x \<Rightarrow> 'a \<times> 'x) \<Rightarrow> 'x world \<Rightarrow> 'a \<times> 'x world" where
  "callExt f w = (case f (ext w) of (r, x') \<Rightarrow> (r, w\<lparr>ext := x'\<rparr>))"

section \<open>\<open>lib/mcpClient.ts\<close>: the connection manager\<close>

text \<open>
  The environment block of the stdio branch of \<open>createTransport\<close>: \<open>envRaw\<close> spreads
  \<open>process.env\<close> and then \<open>config.env || {}\<close>; the loop over \<open>Object.keys(envRaw)\<close> assigns
  \<open>env[key] = value\<close> for the keys whose value is neither undefined nor the empty string.
  The spread defines own properties, so \<open>envRaw\<close> holds every key of both objects. The
  assignment into the plain object \<open>env\<close> stores an own property for every key but
  \<open>__proto__\<close>: there it runs the setter inherited from \<open>Object.prototype\<close>, which ignores
  a string, and \<open>env\<close> gets no such key.
\<close>

definition stdioEnv :: "(string \<rightharpoonup> string) \<Rightarrow> (string \<rightharpoonup> string) option \<Rightarrow> (string \<rightharpoonup> string)" where
  "stdioEnv ambient cfgEnv =
     (let envRaw = ambient ++ (case cfgEnv of None \<Rightarrow> Map.empty | Some m \<Rightarrow> m)
      in (\<lambda>key. case envRaw key of
                  None \<Rightarrow> None
                | Some v \<Rightarrow> if v \<noteq> [] \<and> key \<noteq> ''__proto__'' then Some v else None))"

definition createTransport :: "'x env \<Rightarrow> 'x \<Rightarrow> MCPServerConfig \<Rightarrow> string + Transport" where
  "createTransport env x config =
     (case cfg_transport config of
        Stdio \<Rightarrow>
          if \<not> truthy (cfg_command config) then Inl ''STDIO transport requires a command''
          else Inr (StdioClientTransport
                      (orElse (cfg_command config) [])
                      (case cfg_args config of None \<Rightarrow> [] | Some a \<Rightarrow> a)
                      (stdioEnv (processEnv env x) (cfg_env config)))
      | Sse \<Rightarrow>
          if \<not> truthy (cfg_url config) then Inl ''SSE transport requires a URL''
          else if urlParses env (orElse (cfg_url config) [])
            then Inr (SSEClientTransport (orElse (cfg_url config) []))
            else Inl ''Invalid URL''
      | StreamableHttp \<Rightarrow>
          if \<not> truthy (cfg_url config) then Inl ''Streamable HTTP transport requires a URL''
          else if urlParses env (orElse (cfg_url config) [])
            then Inr (StreamableHTTPClientTransport (orElse (cfg_url config) []))
            else Inl ''Invalid URL''
      | OtherTransport t \<Rightarrow> Inl (''Unsupported transport type: '' @ t))"

definition disconnect :: "'x env \<Rightarrow> 'x world \<Rightarrow> string \<Rightarrow> (string + unit) \<times> 'x world" where
  "disconnect env w serverId =
     (case map_of (clients w) serverId of
        None \<Rightarrow> (Inr (), w)
      | Some instance \<Rightarrow>
          (case callExt (\<lambda>x. clientClose env x instance) w of
             (Inl e, w') \<Rightarrow> (Inl e, w')
           | (Inr u, w') \<Rightarrow> (Inr (), w'\<lparr>clients := map_delete (clients w') serverId\<rparr>)))"

text \<open>
  \<open>connect\<close>. The transport is built and the client constructed before the \<open>try\<close>; the
  handshake and \<open>clients.set\<close> are inside it. The fixed wait after the handshake changes
  nothing but the clock.
\<close>

definition connect :: "'x env \<Rightarrow> 'x world \<Rightarrow> MCPServerConfig \<Rightarrow> (string + unit) \<times> 'x world" where
  "connect env w config =
     (case (if map_has (clients w) (cfg_id config) then disconnect env w (cfg_id config)
            else (Inr (), w)) of
        (Inl e, w1) \<Rightarrow> (Inl e, w1)
      | (Inr u, w1) \<Rightarrow>
          (case createTransport env (ext w1) config of
             Inl e \<Rightarrow> (Inl e, w1)
           | Inr transport \<Rightarrow>
               (let instance = \<lparr>inst_transport = transport, inst_config = config\<rparr> in
                case callExt (\<lambda>x. clientConnect env x instance) w1 of
                  (Inr u', w2) \<Rightarrow>
                    (Inr (), w2\<lparr>clients := map_set (clients w2) (cfg_id config) instance\<rparr>)
                | (Inl error, w2) \<Rightarrow>
                    (case callExt (\<lambda>x. clientClose env x instance) w2 of
                       (closed, w3) \<Rightarrow> (Inl error, w3)))))"

text \<open>
  \<open>disconnectAll\<close> maps \<open>disconnect\<close> over the keys and awaits \<open>Promise.all\<close> of the
  promises. The map runs every \<open>disconnect\<close> up to its \<open>await\<close>: in key order, each looks
  its instance up and calls \<open>close\<close> on the client. \<open>startDisconnects\<close> is that phase; it
  gives, per key, what the close will settle with.
\<close>

fun startDisconnects ::
  "'x env \<Rightarrow> 'x \<Rightarrow> registry \<Rightarrow> string list \<Rightarrow> (string \<times> (string + unit)) list \<times> 'x" where
  "startDisconnects env x reg [] = ([], x)"
| "startDisconnects env x reg (serverId # ids) =
     (case map_of reg serverId of
        None \<Rightarrow>
          (case startDisconnects env x reg ids of (ps, x2) \<Rightarrow> ((serverId, Inr ()) # ps, x2))
      | Some instance \<Rightarrow>
          (case clientClose env x instance of
             (r, x1) \<Rightarrow>
               (case startDisconnects env x1 reg ids of (ps, x2) \<Rightarrow> ((serverId, r) # ps, x2))))"

text \<open>
  A pending \<open>disconnect\<close> resumes when its close settles: after a close that succeeded it
  runs \<open>clients.delete\<close>, after one that threw it rejects and removes nothing.
\<close>

fun resumeDisconnect :: "registry \<Rightarrow> string \<times> (string + unit) \<Rightarrow> registry" where
  "resumeDisconnect reg (serverId, Inr u) = map_delete reg serverId"
| "resumeDisconnect reg (serverId, Inl e) = reg"

text \<open>
  \<open>Promise.all\<close> over promises listed in the order in which they settle: it rejects with
  the first rejection and fulfils when there is none.
\<close>

fun promiseAll :: "(string + unit) list \<Rightarrow> string + unit" where
  "promiseAll [] = Inr ()"
| "promiseAll (Inl e # rs) = Inl e"
| "promiseAll (Inr u # rs) = promiseAll rs"

text \<open>
  \<open>disconnectAll\<close>. The pending disconnects resume in an order that the runtime and the
  servers decide: \<open>order\<close> lists their positions in the key list in the order of
  resumption (a position outside the key list stands for nothing). \<open>Promise.all\<close> rejects
  at the first rejection, when only the disconnects before it have resumed, and
  \<open>disconnectAll\<close> throws from there; the others resume all the same. The result is the
  outcome of \<open>disconnectAll\<close>, the state of the process at that first rejection (at the
  return when there is none), and the state once every pending disconnect has resumed.
\<close>

definition disconnectAll ::
  "'x env \<Rightarrow> 'x world \<Rightarrow> nat list \<Rightarrow> (string + unit) \<times> 'x world \<times> 'x world" where
  "disconnectAll env w order =
     (case startDisconnects env (ext w) (clients w) (map_keys (clients w)) of
        (pending, x') \<Rightarrow>
          (let settled = map (\<lambda>i. pending ! i) (filter (\<lambda>i. i < length pending) order);
               beforeThrow = takeWhile (\<lambda>(serverId, r). \<not> isl r) settled
           in (promiseAll (map snd settled),
               \<lparr>clients = foldl resumeDisconnect (clients w) beforeThrow, ext = x'\<rparr>,
               \<lparr>clients = foldl resumeDisconnect (clients w) settled, ext = x'\<rparr>)))"

definition isConnected :: "'x world \<Rightarrow> string \<Rightarrow> bool" where
  "isConnected w serverId = map_has (clients w) serverId"

definition getClient :: "'x world \<Rightarrow> string \<Rightarrow> string + MCPClientInstance" where
  "getClient w serverId =
     (case map_of (clients w) serverId of
        None \<Rightarrow> Inl (''Server '' @ serverId @ '' is not connected'')
      | Some instance \<Rightarrow> Inr instance)"

definition listTools :: "'x env \<Rightarrow> 'x world \<Rightarrow> string \<Rightarrow> (string + MCPTool list) \<times> 'x world" where
  "listTools env w serverId =
     (case getClient w serverId of
        Inl e \<Rightarrow> (Inl e, w)
      | Inr instance \<Rightarrow> callExt (\<lambda>x. clientListTools env x instance) w)"

text \<open>
  The callback of \<open>result.content.map\<close> in \<open>callTool\<close>. Reading \<open>.text\<close> of an absent
  \<open>resource\<close> throws a TypeError.
\<close>

definition normalizeContent :: "WireContent \<Rightarrow> string + ContentItem" where
  "normalizeContent c =
     (if w_type c = ''text'' then
        Inr \<lparr>c_type = ''text'', c_text = w_text c, c_data = None, c_mimeType = None, c_url = None\<rparr>
      else if w_type c = ''image'' then
        Inr \<lparr>c_type = ''image'', c_text = None, c_data = w_data c, c_mimeType = w_mimeType c,
             c_url = None\<rparr>
      else if w_type c = ''resource'' then
        (case w_resource c of
           None \<Rightarrow> Inl ''TypeError: Cannot read properties of undefined''
         | Some r \<Rightarrow>
             Inr \<lparr>c_type = ''resource'', c_text = wr_text r, c_data = None,
                  c_mimeType = wr_mimeType r, c_url = None\<rparr>)
      else
        Inr \<lparr>c_type = w_type c, c_text = None, c_data = None, c_mimeType = None, c_url = None\<rparr>)"

text \<open>\<open>Array.prototype.map\<close> with a callback that can throw: the first throw ends it.\<close>

fun mapThrowing :: "('a \<Rightarrow> string + 'b) \<Rightarrow> 'a list \<Rightarrow> string + 'b list" where
  "mapThrowing f [] = Inr []"
| "mapThrowing f (a # as) =
     (case f a of
        Inl e \<Rightarrow> Inl e
      | Inr b \<Rightarrow> (case mapThrowing f as of Inl e \<Rightarrow> Inl e | Inr bs \<Rightarrow> Inr (b # bs)))"

definition callTool ::
  "'x env \<Rightarrow> 'x world \<Rightarrow> string \<Rightarrow> string \<Rightarrow> json \<Rightarrow> (string + MCPToolCallResult) \<times> 'x world" where
  "callTool env w serverId toolName args =
     (case getClient w serverId of
        Inl e \<Rightarrow> (Inl e, w)
      | Inr instance \<Rightarrow>
          (case callExt (\<lambda>x. clientCallTool env x instance toolName args) w of
             (Inl e, w') \<Rightarrow> (Inl e, w')
           | (Inr result, w') \<Rightarrow>
               (case mapThrowing normalizeContent (wire_content result) of
                  Inl e \<Rightarrow> (Inl e, w')
                | Inr content \<Rightarrow>
                    (Inr \<lparr>r_content = content, r_isError = wire_isError result\<rparr>, w'))))"

section \<open>\<open>lib/imageStorage.ts\<close>\<close>

definition BUCKET_NAME :: string where
  "BUCKET_NAME = ''chart-image''"

definition mimeToExt :: "(string \<times> string) list" where
  "mimeToExt =
     [(''image/png'', ''png''), (''image/jpeg'', ''jpg''), (''image/jpg'', ''jpg''),
      (''image/gif'', ''gif''), (''image/webp'', ''webp''), (''image/svg+xml'', ''svg'')]"

text \<open>The lookup reads the table's own keys only.\<close>

definition getExtensionFromMimeType :: "string \<Rightarrow> string" where
  "getExtensionFromMimeType mimeType =
     (case map_of mimeToExt (toLowerCase mimeType) of None \<Rightarrow> ''png'' | Some e \<Rightarrow> e)"

definition generateFileName :: "'x env \<Rightarrow> 'x \<Rightarrow> string \<Rightarrow> string" where
  "generateFileName env x mimeType =
     showInt (now env x) @ ''.'' @ getExtensionFromMimeType mimeType"

definition uploadFailed :: string where
  "uploadFailed = bytes [236, 157, 180, 235, 175, 184, 236, 167, 128, 32, 236, 151, 133, 235, 161,
     156, 235, 147, 156, 32, 236, 139, 164, 237, 140, 168, 58, 32]"

definition uploadNoData :: string where
  "uploadNoData = uploadFailed @ bytes [235, 141, 176, 236, 157, 180, 237, 132, 176, 234, 176, 128,
     32, 235, 176, 152, 237, 153, 152, 235, 144, 152, 236, 167, 128, 32, 236, 149, 138, 236, 149,
     152, 236, 138, 181, 235, 139, 136, 235, 139, 164, 46]"

definition publicUrlFailed :: string where
  "publicUrlFailed = bytes [234, 179, 181, 234, 176, 156, 32, 85, 82, 76, 32, 236, 131, 157, 236,
     132, 177, 32, 236, 139, 164, 237, 140, 168]"

text \<open>
  \<open>uploadImageToStorage\<close>. The decoded buffer is opaque: the storage client is handed the
  base64 text that \<open>Buffer.from\<close> decodes. The outer \<open>catch\<close> logs and rethrows.
\<close>

definition uploadImageToStorage :: "'x env \<Rightarrow> 'x \<Rightarrow> string \<Rightarrow> string \<Rightarrow> (string + string) \<times> 'x" where
  "uploadImageToStorage env x base64Data mimeType =
     (let base64String =
            (if CHR '','' \<in> set base64Data
             then takeWhile (\<lambda>c. c \<noteq> CHR '','') (drop 1 (dropWhile (\<lambda>c. c \<noteq> CHR '','') base64Data))
             else base64Data);
          fileName = generateFileName env x mimeType
      in case storageUpload env x BUCKET_NAME fileName base64String mimeType of
           (Inl e, x1) \<Rightarrow> (Inl e, x1)
         | (Inr resp, x1) \<Rightarrow>
             (case up_error resp of
                Some message \<Rightarrow> (Inl (uploadFailed @ message), x1)
              | None \<Rightarrow>
                  (case up_data resp of
                     None \<Rightarrow> (Inl uploadNoData, x1)
                   | Some d \<Rightarrow>
                       (if truthy (storagePublicUrl env x1 BUCKET_NAME fileName)
                        then (Inr (orElse (storagePublicUrl env x1 BUCKET_NAME fileName) []), x1)
                        else (Inl publicUrlFailed, x1)))))"

section \<open>The chat route: schema bridge and result formatting\<close>

definition schemaType :: "string option \<Rightarrow> string" where
  "schemaType t =
     (if t = Some ''number'' \<or> t = Some ''integer'' then ''NUMBER''
      else if t = Some ''boolean'' then ''BOOLEAN''
      else if t = Some ''array'' then ''ARRAY''
      else if t = Some ''object'' then ''OBJECT''
      else ''STRING'')"

definition functionName :: "string \<Rightarrow> string \<Rightarrow> string" where
  "functionName serverId toolName = serverId @ ''__'' @ toolName"

text \<open>
  \<open>convertMCPToolToFunctionDeclaration\<close>. The property table is given for property names
  other than \<open>__proto__\<close> (assigning that name to the plain object \<open>properties\<close> sets its
  prototype and stores no entry).
\<close>

definition convertMCPToolToFunctionDeclaration :: "MCPTool \<Rightarrow> string \<Rightarrow> GeminiFunctionDeclaration" where
  "convertMCPToolToFunctionDeclaration tool serverId =
     \<lparr>fd_name = functionName serverId (tool_name tool),
      fd_description = orElse (tool_description tool) (''MCP Tool: '' @ tool_name tool),
      fd_parameters =
        \<lparr>par_type = ''OBJECT'',
         par_properties =
           (case is_properties (tool_inputSchema tool) of
              None \<Rightarrow> []
            | Some ps \<Rightarrow>
                map (\<lambda>(key, prop).
                       (key, \<lparr>gp_type = schemaType (sp_type prop),
                              gp_description = sp_description prop\<rparr>)) ps),
         par_required =
           (case is_required (tool_inputSchema tool) of None \<Rightarrow> [] | Some r \<Rightarrow> r)\<rparr>\<rparr>"

definition formatToolResult :: "MCPToolCallResult \<Rightarrow> string" where
  "formatToolResult result =
     (if r_isError result = Some True then
        ''Error: '' @ join [CHR 0x0A] (map (\<lambda>c. orElse (c_text c) (c_type c)) (r_content result))
      else
        join [CHR 0x0A]
          (map (\<lambda>c. if c_type c = ''text'' \<and> truthy (c_text c) then orElse (c_text c) []
                     else if c_type c = ''image'' then ''[Image data]''
                     else if c_type c = ''resource'' then orElse (c_text c) ''[Resource]''
                     else ''['' @ c_type c @ '']'')
               (r_content result)))"

section \<open>The chat route: the resolution table\<close>

record ToolInfo =
  ti_serverId :: string
  ti_toolName :: string
  ti_serverName :: string

text \<open>
  One pass of the \<open>for\<close> loop over \<open>enabledTools\<close>: a selection whose server is not
  connected is skipped, a failing \<open>listTools\<close> is caught and logged, a tool that the server
  does not list registers nothing.
\<close>

definition registerTool ::
  "'x env \<Rightarrow> 'x world \<times> GeminiFunctionDeclaration list \<times> (string \<rightharpoonup> ToolInfo) \<Rightarrow> EnabledTool
     \<Rightarrow> 'x world \<times> GeminiFunctionDeclaration list \<times> (string \<rightharpoonup> ToolInfo)" where
  "registerTool env st enabledTool =
     (case st of (w, functionDeclarations, toolMap) \<Rightarrow>
        if \<not> isConnected w (et_serverId enabledTool) then (w, functionDeclarations, toolMap)
        else
          (case listTools env w (et_serverId enabledTool) of
             (Inl e, w') \<Rightarrow> (w', functionDeclarations, toolMap)
           | (Inr tools, w') \<Rightarrow>
               (case find (\<lambda>t. tool_name t = et_toolName enabledTool) tools of
                  None \<Rightarrow> (w', functionDeclarations, toolMap)
                | Some tool \<Rightarrow>
                    (let funcDecl =
                           convertMCPToolToFunctionDeclaration tool (et_serverId enabledTool)
                     in (w', functionDeclarations @ [funcDecl],
                         toolMap(fd_name funcDecl \<mapsto>
                           \<lparr>ti_serverId = et_serverId enabledTool,
                            ti_toolName = et_toolName enabledTool,
                            ti_serverName = et_serverName enabledTool\<rparr>))))))"

definition registerTools ::
  "'x env \<Rightarrow> 'x world \<Rightarrow> EnabledTool list
     \<Rightarrow> 'x world \<times> GeminiFunctionDeclaration list \<times> (string \<rightharpoonup> ToolInfo)" where
  "registerTools env w enabledTools = foldl (registerTool env) (w, [], Map.empty) enabledTools"

section \<open>The chat route: executing the proposed function calls\<close>

text \<open>
  The callback of \<open>mcpResult.content.map\<close> in the rehoming block, and the block itself.
  The uploads of one result are started in the order of the content list.
\<close>

definition rehomeItem :: "'x env \<Rightarrow> 'x \<Rightarrow> ContentItem \<Rightarrow> ContentItem \<times> 'x" where
  "rehomeItem env x contentItem =
     (if c_type contentItem = ''image'' \<and> truthy (c_data contentItem) then
        (case uploadImageToStorage env x (orElse (c_data contentItem) [])
                (orElse (c_mimeType contentItem) ''image/png'') of
           (Inr imageUrl, x') \<Rightarrow> (contentItem\<lparr>c_data := None, c_url := Some imageUrl\<rparr>, x')
         | (Inl uploadError, x') \<Rightarrow> (contentItem, x'))
      else (contentItem, x))"

fun rehomeContent :: "'x env \<Rightarrow> 'x \<Rightarrow> ContentItem list \<Rightarrow> ContentItem list \<times> 'x" where
  "rehomeContent env x [] = ([], x)"
| "rehomeContent env x (contentItem # rest) =
     (case rehomeItem env x contentItem of
        (processed, x1) \<Rightarrow>
          (case rehomeContent env x1 rest of (processedRest, x2) \<Rightarrow> (processed # processedRest, x2)))"

definition rehome :: "'x env \<Rightarrow> 'x world \<Rightarrow> MCPToolCallResult \<Rightarrow> MCPToolCallResult \<times> 'x world" where
  "rehome env w mcpResult =
     (if r_isError mcpResult \<noteq> Some True then
        (case callExt (\<lambda>x. rehomeContent env x (r_content mcpResult)) w of
           (processedContent, w') \<Rightarrow> (mcpResult\<lparr>r_content := processedContent\<rparr>, w'))
      else (mcpResult, w))"

text \<open>
  The body of \<open>for (const functionCall of functionCalls)\<close>. The record is pushed in state
  \<open>running\<close> and completed in place; the model appends the completed record.
\<close>

definition executeFunctionCall ::
  "'x env \<Rightarrow> (string \<rightharpoonup> ToolInfo) \<Rightarrow> 'x world \<times> ToolCall list \<times> FunctionResponse list
     \<Rightarrow> FunctionCall \<Rightarrow> 'x world \<times> ToolCall list \<times> FunctionResponse list" where
  "executeFunctionCall env toolMap st functionCall =
     (case st of (w, toolCalls, functionResponses) \<Rightarrow>
        (case toolMap (fc_name functionCall) of
           None \<Rightarrow>
             (w, toolCalls,
              functionResponses @
                [\<lparr>fr_name = fc_name functionCall, fr_response = ErrorPayload ''Unknown tool''\<rparr>])
         | Some toolInfo \<Rightarrow>
             (case callExt (random36 env) w of
                (rnd, w0) \<Rightarrow>
                  (let toolCall =
                         \<lparr>tc_id = ''tool-'' @ showInt (now env (ext w)) @ ''-'' @ substring 2 9 rnd,
                          tc_serverId = ti_serverId toolInfo,
                          tc_serverName = ti_serverName toolInfo,
                          tc_toolName = ti_toolName toolInfo,
                          tc_args = fc_args functionCall,
                          tc_status = Running,
                          tc_result = None,
                          tc_error = None,
                          tc_startTime = Some (now env (ext w0)),
                          tc_endTime = None\<rparr>
                   in case callTool env w0 (ti_serverId toolInfo) (ti_toolName toolInfo)
                             (fc_args functionCall) of
                        (Inl error, w1) \<Rightarrow>
                          (w1,
                           toolCalls @
                             [toolCall\<lparr>tc_status := Error, tc_error := Some error,
                                       tc_endTime := Some (now env (ext w1))\<rparr>],
                           functionResponses @
                             [\<lparr>fr_name = fc_name functionCall, fr_response = ErrorPayload error\<rparr>])
                      | (Inr called, w1) \<Rightarrow>
                          (case rehome env w1 called of
                             (mcpResult, w2) \<Rightarrow>
                               (w2,
                                toolCalls @
                                  [toolCall\<lparr>tc_status :=
                                              (if r_isError mcpResult = Some True then Error
                                               else Success),
                                            tc_result := Some mcpResult,
                                            tc_endTime := Some (now env (ext w2))\<rparr>],
                                functionResponses @
                                  [\<lparr>fr_name = fc_name functionCall,
                                    fr_response = ResultPayload (formatToolResult mcpResult)\<rparr>]))))))"

definition executeFunctionCalls ::
  "'x env \<Rightarrow> (string \<rightharpoonup> ToolInfo) \<Rightarrow> 'x world \<times> ToolCall list \<times> FunctionResponse list
     \<Rightarrow> FunctionCall list \<Rightarrow> 'x world \<times> ToolCall list \<times> FunctionResponse list" where
  "executeFunctionCalls env toolMap st calls = foldl (executeFunctionCall env toolMap) st calls"

section \<open>The chat route: the function-calling loop and the handler\<close>

text \<open>\<open>chat.sendMessage\<close>: the exchange is added to the session whatever comes back.\<close>

definition sendMessage ::
  "'x env \<Rightarrow> 'x world \<Rightarrow> ChatSession \<Rightarrow> ChatMessage
     \<Rightarrow> (string + ModelResponse) \<times> 'x world \<times> ChatSession" where
  "sendMessage env w chat message =
     (case callExt (\<lambda>x. generateContent env x chat message) w of
        (r, w') \<Rightarrow> (r, w', chat\<lparr>chat_exchanges := chat_exchanges chat @ [(message, r)]\<rparr>))"

definition maxIterations :: nat where
  "maxIterations = 10"

definition proposedCalls :: "ModelResponse \<Rightarrow> FunctionCall list" where
  "proposedCalls response = (case functionCalls response of None \<Rightarrow> [] | Some calls \<Rightarrow> calls)"

record 'x loop_state =
  ls_world :: "'x world"
  ls_chat :: ChatSession
  ls_toolCalls :: "ToolCall list"
  ls_response :: ModelResponse
  ls_finalResponse :: string
  ls_iterationCount :: nat

text \<open>
  The \<open>while (iterationCount < maxIterations)\<close> loop. The result is the state at the
  loop's exit, with \<open>Some\<close> error when \<open>chat.sendMessage\<close> threw inside the loop.
\<close>

function orchestrate ::
  "'x env \<Rightarrow> (string \<rightharpoonup> ToolInfo) \<Rightarrow> 'x loop_state \<Rightarrow> string option \<times> 'x loop_state" where
  "orchestrate env toolMap s =
     (if ls_iterationCount s < maxIterations then
        (if proposedCalls (ls_response s) = [] then
           (None, s\<lparr>ls_iterationCount := Suc (ls_iterationCount s),
                    ls_finalResponse := responseText (ls_response s)\<rparr>)
         else
           (case executeFunctionCalls env toolMap (ls_world s, ls_toolCalls s, [])
                   (proposedCalls (ls_response s)) of
              (w1, toolCalls, functionResponses) \<Rightarrow>
                (case sendMessage env w1 (ls_chat s) (FunctionResponses functionResponses) of
                   (Inl e, w2, chat) \<Rightarrow>
                     (Some e, s\<lparr>ls_iterationCount := Suc (ls_iterationCount s), ls_world := w2,
                                ls_chat := chat, ls_toolCalls := toolCalls\<rparr>)
                 | (Inr response, w2, chat) \<Rightarrow>
                     orchestrate env toolMap
                       (s\<lparr>ls_iterationCount := Suc (ls_iterationCount s), ls_world := w2,
                          ls_chat := chat, ls_toolCalls := toolCalls, ls_response := response\<rparr>))))
      else (None, s))"
  by pat_completeness auto
termination
  by (relation "measure (\<lambda>(env, toolMap, s). maxIterations - ls_iterationCount s)") auto

declare orchestrate.simps [simp del]

record Message =
  msg_role :: string
  msg_content :: string

record ChatRequest =
  req_messages :: "Message list option"
  req_enabledTools :: "EnabledTool list option"
  req_mcpEnabled :: bool

datatype ResponseBody = ErrorBody string | ChatBody string "ToolCall list option"

record HttpResponse =
  status :: nat
  body :: ResponseBody

definition apiKeyMissing :: string where
  "apiKeyMissing = ''GEMINI_API_KEY'' @ bytes [234, 176, 128, 32, 236, 132, 164, 236, 160, 149, 235,
     144, 152, 236, 167, 128, 32, 236, 149, 138, 236, 149, 152, 236, 138, 181, 235, 139, 136, 235,
     139, 164, 46]"

definition noMessage :: string where
  "noMessage = bytes [235, 169, 148, 236, 139, 156, 236, 167, 128, 234, 176, 128, 32, 236, 151, 134,
     236, 138, 181, 235, 139, 136, 235, 139, 164, 46]"

definition serverError :: string where
  "serverError = bytes [236, 132, 156, 235, 178, 132, 32, 236, 152, 164, 235, 165, 152, 234, 176,
     128, 32, 235, 176, 156, 236, 131, 157, 237, 150, 136, 236, 138, 181, 235, 139, 136, 235, 139,
     164, 46]"

text \<open>The fallback text of the exhausted loop (``stopped: too many tool calls'').\<close>

definition tooManyToolCalls :: string where
  "tooManyToolCalls = bytes [235, 143, 132, 234, 181, 172, 32, 237, 152, 184, 236, 182, 156, 236,
     157, 180, 32, 235, 132, 136, 235, 172, 180, 32, 235, 167, 142, 236, 149, 132, 32, 236, 164,
     145, 235, 139, 168, 235, 144, 152, 236, 151, 136, 236, 138, 181, 235, 139, 136, 235, 139,
     164, 46]"

text \<open>
  The chat \<open>POST\<close> handler on the parsed request body. Beside the HTTP response it
  returns the exchanges made with the model and the final state of the process.
\<close>

definition POST ::
  "'x env \<Rightarrow> 'x world \<Rightarrow> ChatRequest
     \<Rightarrow> HttpResponse \<times> (ChatMessage \<times> (string + ModelResponse)) list \<times> 'x world" where
  "POST env w req =
     (if \<not> truthy (processEnv env (ext w) ''GEMINI_API_KEY'') then
        (\<lparr>status = 500, body = ErrorBody apiKeyMissing\<rparr>, [], w)
      else
        (case req_messages req of
           None \<Rightarrow> (\<lparr>status = 500, body = ErrorBody serverError\<rparr>, [], w)
         | Some messages \<Rightarrow>
             (let userMessage = (if messages = [] then [] else msg_content (last messages)) in
              if userMessage = [] then (\<lparr>status = 400, body = ErrorBody noMessage\<rparr>, [], w)
              else
                (case (if req_mcpEnabled req \<and> req_enabledTools req \<noteq> None
                          \<and> req_enabledTools req \<noteq> Some []
                       then registerTools env w (case req_enabledTools req of None \<Rightarrow> [] | Some ts \<Rightarrow> ts)
                       else (w, [], Map.empty)) of
                   (w0, functionDeclarations, toolMap) \<Rightarrow>
                     (let chat =
                            \<lparr>chat_tools =
                               (if functionDeclarations \<noteq> [] then Some functionDeclarations
                                else None),
                             chat_history =
                               map (\<lambda>msg. (if msg_role msg = ''user'' then ''user'' else ''model'',
                                           msg_content msg))
                                   (butlast messages),
                             chat_exchanges = []\<rparr>
                      in case sendMessage env w0 chat (UserText userMessage) of
                           (Inl e, w1, chat1) \<Rightarrow>
                             (\<lparr>status = 500, body = ErrorBody serverError\<rparr>, chat_exchanges chat1, w1)
                         | (Inr response, w1, chat1) \<Rightarrow>
                             (case orchestrate env toolMap
                                     \<lparr>ls_world = w1, ls_chat = chat1, ls_toolCalls = [],
                                      ls_response = response, ls_finalResponse = [],
                                      ls_iterationCount = 0\<rparr> of
                                (Some e, s) \<Rightarrow>
                                  (\<lparr>status = 500, body = ErrorBody serverError\<rparr>,
                                   chat_exchanges (ls_chat s), ls_world s)
                              | (None, s) \<Rightarrow>
                                  (let finalResponse =
                                         (if ls_iterationCount s \<ge> maxIterations
                                          then orElse (Some (responseText (ls_response s)))
                                                 tooManyToolCalls
                                          else ls_finalResponse s)
                                   in (\<lparr>status = 200,
                                        body = ChatBody finalResponse
                                                 (if ls_toolCalls s \<noteq> [] then Some (ls_toolCalls s)
                                                  else None)\<rparr>,
                                       chat_exchanges (ls_chat s), ls_world s))))))))"

section \<open>Concrete collaborators for the worked examples\<close>

text \<open>
  \<open>quietEnv\<close>: every collaborator succeeds, the model answers with plain text, the
  external state is trivial. The other environments change one collaborator each.
\<close>

definition quietEnv :: "unit env" where
  "quietEnv =
     \<lparr>processEnv = (\<lambda>x. [''GEMINI_API_KEY'' \<mapsto> ''key'']),
      now = (\<lambda>x. 0),
      random36 = (\<lambda>x. (''0.k3j9x2m1qz'', x)),
      urlParses = (\<lambda>u. True),
      clientConnect = (\<lambda>x i. (Inr (), x)),
      clientClose = (\<lambda>x i. (Inr (), x)),
      clientListTools = (\<lambda>x i. (Inr [], x)),
      clientCallTool = (\<lambda>x i t a. (Inr \<lparr>wire_content = [], wire_isError = Some False\<rparr>, x)),
      generateContent = (\<lambda>x c m. (Inr \<lparr>functionCalls = None, responseText = ''ok''\<rparr>, x)),
      storageUpload = (\<lambda>x b f c t. (Inr \<lparr>up_data = Some f, up_error = None\<rparr>, x)),
      storagePublicUrl = (\<lambda>x b f. Some (''https://store/'' @ f))\<rparr>"

text \<open>A model that proposes a call of an unregistered function in every response.\<close>

definition insistentEnv :: "string \<Rightarrow> unit env" where
  "insistentEnv txt =
     quietEnv\<lparr>generateContent :=
       (\<lambda>x c m. (Inr \<lparr>functionCalls = Some [\<lparr>fc_name = ''nosuch'', fc_args = ''{}''\<rparr>],
                       responseText = txt\<rparr>, x))\<rparr>"

definition sseConfig :: "string \<Rightarrow> MCPServerConfig" where
  "sseConfig serverId =
     \<lparr>cfg_id = serverId, cfg_name = serverId, cfg_transport = Sse, cfg_command = None,
      cfg_args = None, cfg_env = None, cfg_url = Some ''http://localhost/sse''\<rparr>"

definition sseInstance :: "string \<Rightarrow> MCPClientInstance" where
  "sseInstance serverId =
     \<lparr>inst_transport = SSEClientTransport ''http://localhost/sse'', inst_config = sseConfig serverId\<rparr>"

definition emptyWorld :: "unit world" where
  "emptyWorld = \<lparr>clients = [], ext = ()\<rparr>"

definition helloRequest :: ChatRequest where
  "helloRequest =
     \<lparr>req_messages = Some [\<lparr>msg_role = ''user'', msg_content = ''hello''\<rparr>],
      req_enabledTools = None, req_mcpEnabled = False\<rparr>"

definition plainTool :: "string \<Rightarrow> MCPTool" where
  "plainTool toolName =
     \<lparr>tool_name = toolName, tool_description = None,
      tool_inputSchema = \<lparr>is_type = ''object'', is_properties = None, is_required = None\<rparr>\<rparr>"

text \<open>
  Two connected servers, \<open>a__b\<close> listing the tool \<open>c\<close> and \<open>a\<close> listing the tool
  \<open>b__c\<close>, both selected.
\<close>

definition twoServersEnv :: "unit env" where
  "twoServersEnv =
     quietEnv\<lparr>clientListTools :=
       (\<lambda>x i. (Inr [plainTool (if cfg_id (inst_config i) = ''a__b'' then ''c'' else ''b__c'')], x))\<rparr>"

definition twoServersWorld :: "unit world" where
  "twoServersWorld =
     \<lparr>clients = [(''a__b'', sseInstance ''a__b''), (''a'', sseInstance ''a'')], ext = ()\<rparr>"

definition twoSelections :: "EnabledTool list" where
  "twoSelections =
     [\<lparr>et_serverId = ''a__b'', et_serverName = ''first'', et_toolName = ''c''\<rparr>,
      \<lparr>et_serverId = ''a'', et_serverName = ''second'', et_toolName = ''b__c''\<rparr>]"

text \<open>Server ids as the settings form generates them hold no underscore.\<close>

definition calcWorld :: "unit world" where
  "calcWorld = \<lparr>clients = [(''calc'', sseInstance ''calc'')], ext = ()\<rparr>"

definition calcEnv :: "unit env" where
  "calcEnv = quietEnv\<lparr>clientListTools := (\<lambda>x i. (Inr [plainTool ''add''], x))\<rparr>"

definition calcSelection :: EnabledTool where
  "calcSelection = \<lparr>et_serverId = ''calc'', et_serverName = ''Calculator'', et_toolName = ''add''\<rparr>"

text \<open>Clients whose \<open>close\<close> throws for the server \<open>bad\<close> only.\<close>

definition stubbornEnv :: "unit env" where
  "stubbornEnv =
     quietEnv\<lparr>clientClose :=
       (\<lambda>x i. (if cfg_id (inst_config i) = ''bad'' then Inl ''close failed'' else Inr (), x))\<rparr>"

definition threeServersWorld :: "unit world" where
  "threeServersWorld =
     \<lparr>clients = [(''one'', sseInstance ''one''), (''bad'', sseInstance ''bad''),
                 (''two'', sseInstance ''two'')], ext = ()\<rparr>"

text \<open>A server that refuses the handshake and whose client then fails to close.\<close>

definition refusingEnv :: "unit env" where
  "refusingEnv =
     quietEnv\<lparr>clientConnect := (\<lambda>x i. (Inl ''ECONNREFUSED'', x)),
               clientClose := (\<lambda>x i. (Inl ''close failed'', x))\<rparr>"




text \<open>A server answering with a content item of a type this client does not know.\<close>

definition audioWire :: WireResult where
  "audioWire =
     \<lparr>wire_content =
        [\<lparr>w_type = ''text'', w_text = Some ''done'', w_data = None, w_mimeType = None,
          w_resource = None\<rparr>,
         \<lparr>w_type = ''audio'', w_text = None, w_data = Some ''UklGRg=='',
          w_mimeType = Some ''audio/wav'', w_resource = None\<rparr>],
      wire_isError = Some False\<rparr>"

definition audioEnv :: "unit env" where
  "audioEnv = quietEnv\<lparr>clientCallTool := (\<lambda>x i t a. (Inr audioWire, x))\<rparr>"


definition calcToolMap :: "string \<rightharpoonup> ToolInfo" where
  "calcToolMap =
     [''calc__add'' \<mapsto> \<lparr>ti_serverId = ''calc'', ti_toolName = ''add'', ti_serverName = ''Calculator''\<rparr>]"

definition strayCall :: FunctionCall where
  "strayCall = \<lparr>fc_name = ''weather__today'', fc_args = ''{}''\<rparr>"

text \<open>An ambient secret, and a stdio configuration that names the same key with no value.\<close>

definition secretEnv :: "unit env" where
  "secretEnv =
     quietEnv\<lparr>processEnv := (\<lambda>x. [''API_TOKEN'' \<mapsto> ''ambient-secret'', ''PATH'' \<mapsto> ''/usr/bin''])\<rparr>"

definition tokenConfig :: MCPServerConfig where
  "tokenConfig =
     \<lparr>cfg_id = ''files'', cfg_name = ''Files'', cfg_transport = Stdio, cfg_command = Some ''npx'',
      cfg_args = Some [''-y'', ''server-files''], cfg_env = Some [''API_TOKEN'' \<mapsto> ''''],
      cfg_url = None\<rparr>"

section \<open>Server ids that cannot be confused by the separator\<close>

text \<open>
  A server id is unambiguous when it holds no \<open>__\<close> and does not end in \<open>_\<close>: then the
  first \<open>__\<close> of a bridged name is the separator. The ids that the settings form
  generates (\<open>server-<time>-<random>\<close>) are of this kind.
\<close>

definition unambiguousServerId :: "string \<Rightarrow> bool" where
  "unambiguousServerId serverId \<longleftrightarrow> \<not> str_includes serverId ''__'' \<and> \<not> suffix ''_'' serverId"

text \<open>
  What the registration loop maintains: every declaration made so far resolves, and
  every entry of the table is keyed by the bridged name of its own pair and comes from a
  selection of the request.
\<close>

definition tableInv :: "EnabledTool list \<Rightarrow> GeminiFunctionDeclaration list \<times> (string \<rightharpoonup> ToolInfo) \<Rightarrow> bool" where
  "tableInv sel st \<longleftrightarrow>
     (\<forall>d \<in> set (fst st). snd st (fd_name d) \<noteq> None)
   \<and> (\<forall>name info. snd st name = Some info \<longrightarrow>
         name = functionName (ti_serverId info) (ti_toolName info)
       \<and> (\<exists>e \<in> set sel. ti_serverId info = et_serverId e \<and> ti_toolName info = et_toolName e
                        \<and> ti_serverName info = et_serverName e))"

section \<open>Kinds of chat message\<close>

fun isFunctionResponses :: "ChatMessage \<Rightarrow> bool" where
  "isFunctionResponses (FunctionResponses frs) = True"
| "isFunctionResponses (UserText t) = False"

section \<open>Reading a run of the handler\<close>

text \<open>
  The tool setup with which \<open>POST\<close> starts the chat, on its own: the state after the
  registration loop, the declarations and the resolution table (nothing is registered
  unless \<open>mcpEnabled\<close> is set and \<open>enabledTools\<close> is a non-empty array).
\<close>

definition compiledTools ::
  "'x env \<Rightarrow> 'x world \<Rightarrow> ChatRequest
     \<Rightarrow> 'x world \<times> GeminiFunctionDeclaration list \<times> (string \<rightharpoonup> ToolInfo)" where
  "compiledTools env w req =
     (if req_mcpEnabled req \<and> req_enabledTools req \<noteq> None \<and> req_enabledTools req \<noteq> Some []
      then registerTools env w (case req_enabledTools req of None \<Rightarrow> [] | Some ts \<Rightarrow> ts)
      else (w, [], Map.empty))"

text \<open>The server, tool and server name that an invocation record was made for.\<close>

definition recordedFor :: "ToolCall \<Rightarrow> ToolInfo" where
  "recordedFor toolCall =
     \<lparr>ti_serverId = tc_serverId toolCall, ti_toolName = tc_toolName toolCall,
      ti_serverName = tc_serverName toolCall\<rparr>"

text \<open>
  A batch of function responses answers a list of proposed calls: one response per call,
  in the order of the proposals and under the proposed name, and the response to a call
  whose name is not in the resolution table is \<open>{error: "Unknown tool"}\<close>.
\<close>

definition answers :: "(string \<rightharpoonup> ToolInfo) \<Rightarrow> FunctionResponse list \<Rightarrow> FunctionCall list \<Rightarrow> bool" where
  "answers toolMap functionResponses calls \<longleftrightarrow>
     list_all2
       (\<lambda>response call.
          fr_name response = fc_name call
        \<and> (toolMap (fc_name call) = None \<longrightarrow> fr_response response = ErrorPayload ''Unknown tool''))
       functionResponses calls"

text \<open>
  The exchanges that the loop makes, read from the response it starts with. With a budget
  of \<open>n\<close> iterations, no exchange is made when the budget is used up or the response
  proposes no call; otherwise one exchange is made, and the loop goes on from its reply
  with one iteration less, or ends there when \<open>chat.sendMessage\<close> threw.
\<close>

fun loopRun ::
  "nat \<Rightarrow> ModelResponse \<Rightarrow> (ChatMessage \<times> (string + ModelResponse)) list \<Rightarrow> bool" where
  "loopRun n response [] \<longleftrightarrow> n = 0 \<or> proposedCalls response = []"
| "loopRun n response ((message, reply) # later) \<longleftrightarrow>
     0 < n \<and> proposedCalls response \<noteq> []
   \<and> (case reply of Inl e \<Rightarrow> later = [] | Inr next \<Rightarrow> loopRun (n - 1) next later)"

text \<open>
  The responses whose proposed calls were executed, one per exchange of the loop: the
  response the loop starts with, then the reply of each exchange but the last.
\<close>

fun inspectedResponses ::
  "ModelResponse \<Rightarrow> (ChatMessage \<times> (string + ModelResponse)) list \<Rightarrow> ModelResponse list" where
  "inspectedResponses response [] = []"
| "inspectedResponses response ((message, reply) # later) =
     response # (case reply of Inl e \<Rightarrow> [] | Inr next \<Rightarrow> inspectedResponses next later)"

section \<open>Further worked examples\<close>

text \<open>
  The server \<open>math\<close> is connected and lists the tool \<open>mul\<close>, which answers with the
  text \<open>42\<close>; the server \<open>calc\<close> is not connected.
\<close>

definition mathWorld :: "unit world" where
  "mathWorld = \<lparr>clients = [(''math'', sseInstance ''math'')], ext = ()\<rparr>"

definition fortyTwo :: WireResult where
  "fortyTwo =
     \<lparr>wire_content =
        [\<lparr>w_type = ''text'', w_text = Some ''42'', w_data = None, w_mimeType = None,
          w_resource = None\<rparr>],
      wire_isError = Some False\<rparr>"

definition mathEnv :: "unit env" where
  "mathEnv =
     quietEnv\<lparr>clientListTools := (\<lambda>x i. (Inr [plainTool ''mul''], x)),
               clientCallTool := (\<lambda>x i t a. (Inr fortyTwo, x))\<rparr>"

definition mulCall :: FunctionCall where
  "mulCall = \<lparr>fc_name = ''math__mul'', fc_args = ''{}''\<rparr>"

definition mathInfo :: ToolInfo where
  "mathInfo = \<lparr>ti_serverId = ''math'', ti_toolName = ''mul'', ti_serverName = ''Mathematics''\<rparr>"



text \<open>
  A model that answers the user's message by proposing an unregistered function and
  \<open>math__mul\<close>, and answers the function responses with the text \<open>42\<close>.
\<close>

definition scriptedEnv :: "unit env" where
  "scriptedEnv =
     mathEnv\<lparr>generateContent :=
       (\<lambda>x c m. (case m of
                    UserText t \<Rightarrow>
                      Inr \<lparr>functionCalls = Some [strayCall, mulCall], responseText = []\<rparr>
                  | FunctionResponses frs \<Rightarrow>
                      Inr \<lparr>functionCalls = None, responseText = ''42''\<rparr>, x))\<rparr>"

definition mathRequest :: ChatRequest where
  "mathRequest =
     \<lparr>req_messages = Some [\<lparr>msg_role = ''user'', msg_content = ''what is 6 times 7''\<rparr>],
      req_enabledTools =
        Some [\<lparr>et_serverId = ''math'', et_serverName = ''Mathematics'', et_toolName = ''mul''\<rparr>],
      req_mcpEnabled = True\<rparr>"

text \<open>A stdio configuration whose environment names the key \<open>__proto__\<close>.\<close>

definition protoConfig :: MCPServerConfig where
  "protoConfig = tokenConfig\<lparr>cfg_env := Some [''__proto__'' \<mapsto> ''x'', ''MODE'' \<mapsto> ''fast'']\<rparr>"

section \<open>Normalisation of tool results\<close>

lemma mapThrowing_length: "mapThrowing f xs = Inr ys \<Longrightarrow> length ys = length xs"
  by (induction xs arbitrary: ys) (auto split: sum.splits)

lemma mapThrowing_nth:
  "mapThrowing f xs = Inr ys \<Longrightarrow> i < length xs \<Longrightarrow> f (xs ! i) = Inr (ys ! i)"
proof (induction xs arbitrary: ys i)
  case Nil
  then show ?case by simp
next
  case (Cons a as)
  then show ?case by (cases i) (auto split: sum.splits)
qed

lemma normalizeContent_type: "normalizeContent c = Inr d \<Longrightarrow> c_type d = w_type c"
  by (auto simp: normalizeContent_def split: if_splits option.splits)

lemma normalizeContent_unknown:
  "w_type c \<noteq> ''text'' \<Longrightarrow> w_type c \<noteq> ''image'' \<Longrightarrow> w_type c \<noteq> ''resource'' \<Longrightarrow>
   normalizeContent c =
     Inr \<lparr>c_type = w_type c, c_text = None, c_data = None, c_mimeType = None, c_url = None\<rparr>"
  by (simp add: normalizeContent_def)


text \<open>
  Claim C9. Whenever \<open>callTool\<close> returns a result, the normalised content list has the
  length of the wire content list and its item at each position is the normalisation of
  the wire item at that position, so the order is kept and nothing is dropped; every item
  keeps its type tag, and an item whose type is none of \<open>text\<close>, \<open>image\<close>, \<open>resource\<close>
  is kept as an item that carries that type tag and no payload field.
\<close>

theorem callTool_keeps_every_item:
  assumes "callTool env w serverId toolName args = (Inr result, w')"
  shows "\<exists>instance wire.
           getClient w serverId = Inr instance
         \<and> clientCallTool env (ext w) instance toolName args = (Inr wire, ext w')
         \<and> clients w' = clients w
         \<and> r_isError result = wire_isError wire
         \<and> length (r_content result) = length (wire_content wire)
         \<and> (\<forall>i < length (wire_content wire).
               normalizeContent (wire_content wire ! i) = Inr (r_content result ! i)
             \<and> c_type (r_content result ! i) = w_type (wire_content wire ! i)
             \<and> (w_type (wire_content wire ! i) \<notin> {''text'', ''image'', ''resource''} \<longrightarrow>
                  r_content result ! i =
                    \<lparr>c_type = w_type (wire_content wire ! i), c_text = None, c_data = None,
                     c_mimeType = None, c_url = None\<rparr>))"
proof -
  from assms obtain ci where inst: "getClient w serverId = Inr ci"
    by (auto simp: callTool_def split: sum.splits)
  from assms inst obtain wire x' where
    wire: "clientCallTool env (ext w) ci toolName args = (Inr wire, x')"
    by (auto simp: callTool_def callExt_def split: sum.splits prod.splits)
  from assms inst wire have m: "mapThrowing normalizeContent (wire_content wire) = Inr (r_content result)"
    and err: "r_isError result = wire_isError wire"
    and w': "w' = w\<lparr>ext := x'\<rparr>"
    by (auto simp: callTool_def callExt_def split: sum.splits)
  have len: "length (r_content result) = length (wire_content wire)"
    using m by (rule mapThrowing_length)
  have items: "normalizeContent (wire_content wire ! i) = Inr (r_content result ! i)
             \<and> c_type (r_content result ! i) = w_type (wire_content wire ! i)
             \<and> (w_type (wire_content wire ! i) \<notin> {''text'', ''image'', ''resource''} \<longrightarrow>
                  r_content result ! i =
                    \<lparr>c_type = w_type (wire_content wire ! i), c_text = None, c_data = None,
                     c_mimeType = None, c_url = None\<rparr>)"
    if "i < length (wire_content wire)" for i
  proof -
    have n: "normalizeContent (wire_content wire ! i) = Inr (r_content result ! i)"
      using m that by (rule mapThrowing_nth)
    show ?thesis
      using n normalizeContent_type[OF n] normalizeContent_unknown[of "wire_content wire ! i"]
      by auto
  qed
  show ?thesis
    using inst wire len err w' items by (intro exI[of _ ci] exI[of _ wire]) simp
qed

theorem callTool_keeps_every_item_witness:
  "callTool audioEnv calcWorld ''calc'' ''add'' ''{}'' =
     (Inr \<lparr>r_content =
        [\<lparr>c_type = ''text'', c_text = Some ''done'', c_data = None, c_mimeType = None, c_url = None\<rparr>,
         \<lparr>c_type = ''audio'', c_text = None, c_data = None, c_mimeType = None, c_url = None\<rparr>],
        r_isError = Some False\<rparr>, calcWorld)
   \<and> length (wire_content audioWire) = 2
   \<and> w_type (wire_content audioWire ! 1) = ''audio''"
proof -
  have h: "callTool audioEnv calcWorld ''calc'' ''add'' ''{}'' =
     (Inr \<lparr>r_content =
        [\<lparr>c_type = ''text'', c_text = Some ''done'', c_data = None, c_mimeType = None, c_url = None\<rparr>,
         \<lparr>c_type = ''audio'', c_text = None, c_data = None, c_mimeType = None, c_url = None\<rparr>],
        r_isError = Some False\<rparr>, calcWorld)"
    by (simp add: callTool_def getClient_def callExt_def audioEnv_def quietEnv_def calcWorld_def
        audioWire_def normalizeContent_def)
  have "length (wire_content audioWire) = 2 \<and> w_type (wire_content audioWire ! 1) = ''audio''"
    by (simp add: audioWire_def)
  then show ?thesis
    using h callTool_keeps_every_item[OF h] by simp
qed

section \<open>The environment of a stdio transport\<close>

text \<open>
  The configuration \<open>tokenConfig\<close> names \<open>API_TOKEN\<close> with the empty string while the
  ambient environment holds a value for it: the process transport gets no \<open>API_TOKEN\<close>
  at all, so the ambient value is not left intact.
\<close>

theorem empty_value_erases_ambient:
  "processEnv secretEnv () ''API_TOKEN'' = Some ''ambient-secret''
   \<and> createTransport secretEnv () tokenConfig =
       Inr (StdioClientTransport ''npx'' [''-y'', ''server-files''] [''PATH'' \<mapsto> ''/usr/bin''])"
  by (auto simp: createTransport_def secretEnv_def quietEnv_def tokenConfig_def stdioEnv_def
      map_add_def fun_eq_iff)

text \<open>
  Claim C7, amended. The environment handed to the process transport is the ambient
  environment overlaid with the configured pairs, and the entries whose value is the
  empty string are removed after that merge: a key other than \<open>__proto__\<close> is passed with
  its configured value if the configuration names it, else with its ambient value, and is
  dropped when that value is empty. A configured empty string therefore removes the key.
  The key \<open>__proto__\<close> is never passed.
\<close>

theorem stdio_env_strips_after_merge:
  assumes "createTransport env x config = Inr (StdioClientTransport command args e)"
  shows "e key =
           (if key = ''__proto__'' then None
            else
              (case (case cfg_env config of
                       None \<Rightarrow> processEnv env x key
                     | Some m \<Rightarrow> (case m key of None \<Rightarrow> processEnv env x key | Some v \<Rightarrow> Some v)) of
                 None \<Rightarrow> None
               | Some v \<Rightarrow> if v = [] then None else Some v))
         \<and> ((\<exists>m. cfg_env config = Some m \<and> m key = Some []) \<longrightarrow> e key = None)"
proof -
  from assms have e: "e = stdioEnv (processEnv env x) (cfg_env config)"
    by (auto simp: createTransport_def split: MCPTransportType.splits if_splits)
  show ?thesis
    unfolding e by (auto simp: stdioEnv_def map_add_def split: option.splits)
qed

theorem stdio_env_strips_after_merge_witness:
  "createTransport secretEnv () tokenConfig =
       Inr (StdioClientTransport ''npx'' [''-y'', ''server-files''] [''PATH'' \<mapsto> ''/usr/bin''])
   \<and> [''PATH'' \<mapsto> ''/usr/bin''] ''API_TOKEN'' = None
   \<and> [''PATH'' \<mapsto> ''/usr/bin''] ''PATH'' = Some ''/usr/bin''
   \<and> createTransport secretEnv () protoConfig =
       Inr (StdioClientTransport ''npx'' [''-y'', ''server-files'']
              [''API_TOKEN'' \<mapsto> ''ambient-secret'', ''PATH'' \<mapsto> ''/usr/bin'', ''MODE'' \<mapsto> ''fast''])"
proof -
  have h: "createTransport secretEnv () tokenConfig =
       Inr (StdioClientTransport ''npx'' [''-y'', ''server-files''] [''PATH'' \<mapsto> ''/usr/bin''])"
    by (auto simp: createTransport_def secretEnv_def quietEnv_def tokenConfig_def stdioEnv_def
        map_add_def fun_eq_iff)
  have p: "createTransport secretEnv () protoConfig =
       Inr (StdioClientTransport ''npx'' [''-y'', ''server-files'']
              [''API_TOKEN'' \<mapsto> ''ambient-secret'', ''PATH'' \<mapsto> ''/usr/bin'', ''MODE'' \<mapsto> ''fast''])"
    by (auto simp: createTransport_def secretEnv_def quietEnv_def tokenConfig_def protoConfig_def
        stdioEnv_def map_add_def fun_eq_iff)
  show ?thesis
    using h p stdio_env_strips_after_merge[OF h, of "''API_TOKEN''"]
      stdio_env_strips_after_merge[OF h, of "''PATH''"]
      stdio_env_strips_after_merge[OF p, of "''__proto__''"]
    by simp
qed

section \<open>One round of proposed calls\<close>





lemma orchestrate_exchanges_extend:
  "\<exists>more. chat_exchanges (ls_chat (snd (orchestrate env toolMap s))) = chat_exchanges (ls_chat s) @ more"
proof (induction env toolMap s rule: orchestrate.induct)
  case (1 env toolMap s)
  show ?case
  proof (cases "ls_iterationCount s < maxIterations \<and> proposedCalls (ls_response s) \<noteq> []")
    case False
    then show ?thesis by (auto simp: orchestrate.simps[of env toolMap s])
  next
    case True
    obtain w1 tcs frs where e: "executeFunctionCalls env toolMap (ls_world s, ls_toolCalls s, [])
                   (proposedCalls (ls_response s)) = (w1, tcs, frs)"
      by (cases "executeFunctionCalls env toolMap (ls_world s, ls_toolCalls s, [])
                   (proposedCalls (ls_response s))") auto
    obtain r w2 chat where m: "sendMessage env w1 (ls_chat s) (FunctionResponses frs) = (r, w2, chat)"
      by (cases "sendMessage env w1 (ls_chat s) (FunctionResponses frs)") auto
    have c: "chat_exchanges chat = chat_exchanges (ls_chat s) @ [(FunctionResponses frs, r)]"
      using m by (auto simp: sendMessage_def split: prod.splits)
    show ?thesis
    proof (cases r)
      case (Inl err)
      then show ?thesis using True e m c by (simp add: orchestrate.simps[of env toolMap s])
    next
      case (Inr response)
      from True have lt: "ls_iterationCount s < maxIterations"
        and ne: "proposedCalls (ls_response s) \<noteq> []" by simp_all
      from "1.IH"[OF lt ne e[symmetric] refl m[symmetric] Inr refl] c
      show ?thesis
        using True e m Inr by (auto simp: orchestrate.simps[of env toolMap s])
    qed
  qed
qed


lemma executeFunctionCall_answers:
  "\<exists>w' moreCalls response.
     executeFunctionCall env toolMap (w, toolCalls, functionResponses) functionCall
       = (w', toolCalls @ moreCalls, functionResponses @ [response])
   \<and> fr_name response = fc_name functionCall
   \<and> (toolMap (fc_name functionCall) = None \<longrightarrow> fr_response response = ErrorPayload ''Unknown tool'')
   \<and> map recordedFor moreCalls
       = (case toolMap (fc_name functionCall) of None \<Rightarrow> [] | Some info \<Rightarrow> [info])"
  by (auto simp: executeFunctionCall_def Let_def recordedFor_def
      split: option.splits prod.splits sum.splits)

lemma executeFunctionCalls_answers:
  "\<exists>w' moreCalls responses.
     executeFunctionCalls env toolMap (w, toolCalls, functionResponses) calls
       = (w', toolCalls @ moreCalls, functionResponses @ responses)
   \<and> answers toolMap responses calls
   \<and> map recordedFor moreCalls = List.map_filter (\<lambda>c. toolMap (fc_name c)) calls"
proof (induction calls arbitrary: w toolCalls functionResponses)
  case Nil
  then show ?case by (simp add: executeFunctionCalls_def List.map_filter_simps answers_def)
next
  case (Cons c calls)
  obtain w1 more1 r1 where s:
    "executeFunctionCall env toolMap (w, toolCalls, functionResponses) c
       = (w1, toolCalls @ more1, functionResponses @ [r1])"
    "fr_name r1 = fc_name c"
    "toolMap (fc_name c) = None \<longrightarrow> fr_response r1 = ErrorPayload ''Unknown tool''"
    "map recordedFor more1 = (case toolMap (fc_name c) of None \<Rightarrow> [] | Some info \<Rightarrow> [info])"
    using executeFunctionCall_answers[of env toolMap w toolCalls functionResponses c]
    by (elim exE conjE) (rule that)
  obtain w2 more2 rs2 where t:
    "executeFunctionCalls env toolMap (w1, toolCalls @ more1, functionResponses @ [r1]) calls
       = (w2, (toolCalls @ more1) @ more2, (functionResponses @ [r1]) @ rs2)"
    "answers toolMap rs2 calls"
    "map recordedFor more2 = List.map_filter (\<lambda>c. toolMap (fc_name c)) calls"
    using Cons.IH[of w1 "toolCalls @ more1" "functionResponses @ [r1]"]
    by (elim exE conjE) (rule that)
  have step: "executeFunctionCalls env toolMap (w, toolCalls, functionResponses) (c # calls)
      = (w2, toolCalls @ (more1 @ more2), functionResponses @ (r1 # rs2))"
    using s(1) t(1) by (simp add: executeFunctionCalls_def)
  show ?case
    apply (rule exI[of _ w2], rule exI[of _ "more1 @ more2"], rule exI[of _ "r1 # rs2"])
    using step s t by (auto simp: List.map_filter_simps answers_def split: option.splits)
qed




section \<open>Artifact rehoming\<close>






lemma showInt_zero: "showInt 0 = ''0''"
  by code_simp


section \<open>Connecting\<close>

lemma callExt_clients: "callExt f w = (r, w') \<Longrightarrow> clients w' = clients w"
  by (auto simp: callExt_def split: prod.splits)

lemma map_of_map_delete: "map_of (map_delete m k) k = None"
  by (induction m) (auto simp: map_delete_def)

lemma disconnect_ok_removes:
  "disconnect env w serverId = (Inr u, w') \<Longrightarrow> map_of (clients w') serverId = None"
  by (auto simp: disconnect_def map_of_map_delete split: option.splits prod.splits sum.splits
      dest: callExt_clients)

text \<open>
  Claim C5. When \<open>connect\<close> fails once the teardown of an earlier handle is over, that
  is when building the transport throws or the handshake throws, the registry holds no
  handle for the configuration's id afterwards and the caller gets the original error: a
  failure of the transport build leaves the state as the teardown left it (no client
  exists yet), and after a failed handshake the new client is closed, whatever the close
  returns or throws being dropped.
\<close>

theorem failed_connect_installs_nothing:
  assumes teardown: "(if map_has (clients w) (cfg_id config) then disconnect env w (cfg_id config)
                      else (Inr (), w)) = (Inr (), w1)"
    and failed: "connect env w config = (Inl e, w')"
  shows "map_of (clients w') (cfg_id config) = None
       \<and> ((createTransport env (ext w1) config = Inl e \<and> w' = w1)
          \<or> (\<exists>transport w2 closed.
                createTransport env (ext w1) config = Inr transport
              \<and> callExt (\<lambda>x. clientConnect env x
                                \<lparr>inst_transport = transport, inst_config = config\<rparr>) w1 = (Inl e, w2)
              \<and> callExt (\<lambda>x. clientClose env x
                                \<lparr>inst_transport = transport, inst_config = config\<rparr>) w2 = (closed, w')))"
proof -
  have gone: "map_of (clients w1) (cfg_id config) = None"
  proof (cases "map_has (clients w) (cfg_id config)")
    case True
    with teardown show ?thesis by (auto dest: disconnect_ok_removes)
  next
    case False
    with teardown show ?thesis by (auto simp: map_has_def)
  qed
  show ?thesis
  proof (cases "createTransport env (ext w1) config")
    case (Inl err)
    with teardown failed gone show ?thesis by (simp add: connect_def)
  next
    case (Inr transport)
    let ?inst = "\<lparr>inst_transport = transport, inst_config = config\<rparr>"
    obtain r w2 where c: "callExt (\<lambda>x. clientConnect env x ?inst) w1 = (r, w2)"
      by (cases "callExt (\<lambda>x. clientConnect env x ?inst) w1") auto
    obtain closed w3 where cl: "callExt (\<lambda>x. clientClose env x ?inst) w2 = (closed, w3)"
      by (cases "callExt (\<lambda>x. clientClose env x ?inst) w2") auto
    from teardown failed Inr c cl have r: "r = Inl e" and w: "w' = w3"
      by (auto simp: connect_def Let_def split: sum.splits)
    have "clients w3 = clients w1"
      using callExt_clients[OF c] callExt_clients[OF cl] by simp
    with gone w have "map_of (clients w') (cfg_id config) = None" by simp
    then show ?thesis using Inr c cl r w by auto
  qed
qed

theorem failed_connect_installs_nothing_witness:
  "connect refusingEnv emptyWorld (sseConfig ''x'') = (Inl ''ECONNREFUSED'', emptyWorld)
   \<and> fst (callExt (\<lambda>x. clientClose refusingEnv x (sseInstance ''x'')) emptyWorld) = Inl ''close failed''
   \<and> map_of (clients emptyWorld) ''x'' = None
   \<and> connect quietEnv calcWorld (tokenConfig\<lparr>cfg_command := None\<rparr>)
       = (Inl ''STDIO transport requires a command'', calcWorld)
   \<and> map_of (clients calcWorld) ''files'' = None"
proof -
  have t1: "(if map_has (clients emptyWorld) (cfg_id (sseConfig ''x''))
             then disconnect refusingEnv emptyWorld (cfg_id (sseConfig ''x''))
             else (Inr (), emptyWorld)) = (Inr (), emptyWorld)"
    by (simp add: map_has_def emptyWorld_def)
  have f1: "connect refusingEnv emptyWorld (sseConfig ''x'') = (Inl ''ECONNREFUSED'', emptyWorld)"
    by (simp add: connect_def map_has_def emptyWorld_def createTransport_def sseConfig_def
        refusingEnv_def quietEnv_def callExt_def)
  have c1: "fst (callExt (\<lambda>x. clientClose refusingEnv x (sseInstance ''x'')) emptyWorld)
              = Inl ''close failed''"
    by (simp add: callExt_def refusingEnv_def quietEnv_def)
  have t2: "(if map_has (clients calcWorld) (cfg_id (tokenConfig\<lparr>cfg_command := None\<rparr>))
             then disconnect quietEnv calcWorld (cfg_id (tokenConfig\<lparr>cfg_command := None\<rparr>))
             else (Inr (), calcWorld)) = (Inr (), calcWorld)"
    by (simp add: map_has_def calcWorld_def tokenConfig_def)
  have f2: "connect quietEnv calcWorld (tokenConfig\<lparr>cfg_command := None\<rparr>)
       = (Inl ''STDIO transport requires a command'', calcWorld)"
    by (simp add: connect_def map_has_def calcWorld_def createTransport_def tokenConfig_def)
  show ?thesis
    using f1 c1 f2 failed_connect_installs_nothing[OF t1 f1] failed_connect_installs_nothing[OF t2 f2]
    by (simp add: sseConfig_def tokenConfig_def)
qed

section \<open>Bulk teardown\<close>

lemma map_delete_absent: "k \<notin> fst ` set m \<Longrightarrow> map_delete m k = m"
  by (induction m) (auto simp: map_delete_def)

lemma map_delete_append: "map_delete (xs @ ys) k = map_delete xs k @ map_delete ys k"
  by (simp add: map_delete_def)

lemma map_delete_hit: "map_delete ((k, v) # m) k = map_delete m k"
  by (simp add: map_delete_def)

lemma promiseAll_ok: "promiseAll rs = Inr () \<longleftrightarrow> (\<forall>r \<in> set rs. \<not> isl r)"
  by (induction rs rule: promiseAll.induct) auto

text \<open>The keys of the registry stay distinct under \<open>connect\<close> and \<open>disconnect\<close>.\<close>

lemma map_keys_map_delete: "map_keys (map_delete m k) = filter (\<lambda>k'. k' \<noteq> k) (map_keys m)"
  by (induction m) (auto simp: map_keys_def map_delete_def)

lemma map_keys_map_set:
  "map_keys (map_set m k v) = (if map_has m k then map_keys m else map_keys m @ [k])"
  by (auto simp: map_keys_def map_set_def split: prod.splits)

lemma map_has_keys: "map_has m k \<longleftrightarrow> k \<in> set (map_keys m)"
  by (simp add: map_has_def map_keys_def map_of_eq_None_iff)

lemma disconnect_keeps_distinct:
  "distinct (map_keys (clients w)) \<Longrightarrow> distinct (map_keys (clients (snd (disconnect env w serverId))))"
  by (auto simp: disconnect_def callExt_def map_keys_map_delete split: option.splits prod.splits sum.splits)

lemma connect_keeps_distinct:
  "distinct (map_keys (clients w)) \<Longrightarrow> distinct (map_keys (clients (snd (connect env w config))))"
proof -
  assume d: "distinct (map_keys (clients w))"
  obtain r w1 where t: "(if map_has (clients w) (cfg_id config) then disconnect env w (cfg_id config)
            else (Inr (), w)) = (r, w1)"
    by (metis surj_pair)
  have d1: "distinct (map_keys (clients w1))"
    using t d disconnect_keeps_distinct[OF d, of env "cfg_id config"]
    by (auto split: if_splits)
  show ?thesis
    using t d1
    by (auto simp: connect_def Let_def callExt_def map_keys_map_set map_has_keys
        split: sum.splits prod.splits)
qed


lemma foldl_resumeDisconnect:
  "foldl resumeDisconnect reg ps
     = filter (\<lambda>(k, v). k \<notin> fst ` {p \<in> set ps. \<not> isl (snd p)}) reg"
proof (induction ps arbitrary: reg)
  case Nil
  then show ?case by simp
next
  case (Cons p ps)
  obtain k r where p: "p = (k, r)" by (cases p) auto
  show ?case
  proof (cases r)
    case (Inl e)
    have "{q \<in> set (p # ps). \<not> isl (snd q)} = {q \<in> set ps. \<not> isl (snd q)}"
      using p Inl by auto
    then show ?thesis using Cons.IH[of reg] p Inl by simp
  next
    case (Inr u)
    have s: "fst ` {q \<in> set (p # ps). \<not> isl (snd q)} = insert k (fst ` {q \<in> set ps. \<not> isl (snd q)})"
      using p Inr by force
    show ?thesis
      using Cons.IH[of "map_delete reg k"] p Inr
      unfolding s by (auto simp: map_delete_def intro: filter_cong)
  qed
qed

lemma startDisconnects_trace:
  assumes "\<forall>(k, inst) \<in> set todo. map_of reg k = Some inst"
    and "startDisconnects env x reg (map fst todo) = (ps, x')"
  shows "map fst ps = map fst todo
       \<and> (\<exists>xs. length xs = Suc (length todo) \<and> xs ! 0 = x \<and> xs ! length todo = x'
              \<and> (\<forall>i < length todo.
                    clientClose env (xs ! i) (snd (todo ! i)) = (snd (ps ! i), xs ! Suc i)))"
  using assms
proof (induction todo arbitrary: x ps x')
  case Nil
  then show ?case by (auto intro: exI[of _ "[x]"])
next
  case (Cons kv todo)
  obtain k inst where kv: "kv = (k, inst)" by (cases kv) auto
  from Cons.prems(1) kv have look: "map_of reg k = Some inst" by simp
  obtain r x1 where cl: "clientClose env x inst = (r, x1)" by (cases "clientClose env x inst") auto
  obtain ps1 x2 where rest: "startDisconnects env x1 reg (map fst todo) = (ps1, x2)"
    by (cases "startDisconnects env x1 reg (map fst todo)") auto
  from Cons.prems(2) kv look cl rest have ps: "ps = (k, r) # ps1" and x': "x' = x2" by simp_all
  from Cons.prems(1) have "\<forall>(k, inst) \<in> set todo. map_of reg k = Some inst" by simp
  from Cons.IH[OF this rest] obtain xs where ih:
    "map fst ps1 = map fst todo" "length xs = Suc (length todo)" "xs ! 0 = x1" "xs ! length todo = x2"
    "\<forall>i < length todo. clientClose env (xs ! i) (snd (todo ! i)) = (snd (ps1 ! i), xs ! Suc i)"
    by blast
  have "\<forall>i < length (kv # todo).
          clientClose env ((x # xs) ! i) (snd ((kv # todo) ! i)) = (snd (ps ! i), (x # xs) ! Suc i)"
  proof (intro allI impI)
    fix i assume "i < length (kv # todo)"
    then show "clientClose env ((x # xs) ! i) (snd ((kv # todo) ! i)) = (snd (ps ! i), (x # xs) ! Suc i)"
      using ih(3,5) cl kv ps by (cases i) auto
  qed
  then show ?case
    using ih(1,2,4) ps kv x' by (intro conjI exI[of _ "x # xs"]) auto
qed

lemma registry_lookup:
  "distinct (map fst reg) \<Longrightarrow> \<forall>(k, inst) \<in> set reg. map_of reg k = Some inst"
  by auto

text \<open>
  Three servers are connected and the client of \<open>bad\<close> throws on \<open>close\<close>; the
  disconnects resume in key order. \<open>disconnectAll\<close> throws that error, so the failure is
  raised and not handled per id; at that moment \<open>two\<close> is still registered, and it is
  removed when its own disconnect resumes.
\<close>

theorem one_failing_close_fails_disconnectAll:
  "disconnectAll stubbornEnv threeServersWorld [0, 1, 2] =
     (Inl ''close failed'',
      \<lparr>clients = [(''bad'', sseInstance ''bad''), (''two'', sseInstance ''two'')], ext = ()\<rparr>,
      \<lparr>clients = [(''bad'', sseInstance ''bad'')], ext = ()\<rparr>)"
  by (simp add: disconnectAll_def map_keys_def threeServersWorld_def stubbornEnv_def quietEnv_def
      sseInstance_def sseConfig_def map_delete_def)

text \<open>
  Claim C8, amended. \<open>disconnectAll\<close> calls \<open>close\<close> on the client of every known id, in
  key order. Whatever the order in which the closes settle: it throws exactly when some
  close threw, with the error of the first close to fail in that order; at that first
  failure, or at the return when there is none, the ids removed from the registry are
  those whose successful close settled before it; and once every close has settled, an id is still registered
  exactly when its own close threw, so a failure neither keeps another id from being
  closed nor from being removed.
\<close>

theorem disconnectAll_outcome:
  assumes keys: "distinct (map_keys (clients w))"
    and perm: "distinct order" "set order = {..<length (clients w)}"
  shows "\<exists>rs xs.
           length rs = length (clients w)
         \<and> length xs = Suc (length (clients w))
         \<and> xs ! 0 = ext w
         \<and> (\<forall>i < length (clients w).
               clientClose env (xs ! i) (snd (clients w ! i)) = (rs ! i, xs ! Suc i))
         \<and> fst (disconnectAll env w order) = promiseAll (map (\<lambda>i. rs ! i) order)
         \<and> (fst (disconnectAll env w order) = Inr () \<longleftrightarrow> (\<forall>r \<in> set rs. \<not> isl r))
         \<and> clients (fst (snd (disconnectAll env w order))) =
             filter (\<lambda>(k, v). k \<notin> (\<lambda>i. fst (clients w ! i)) `
                                    set (takeWhile (\<lambda>i. \<not> isl (rs ! i)) order))
                    (clients w)
         \<and> clients (snd (snd (disconnectAll env w order))) =
             filter (\<lambda>(k, v). k \<notin> (\<lambda>i. fst (clients w ! i)) `
                                    {i. i < length (clients w) \<and> \<not> isl (rs ! i)})
                    (clients w)
         \<and> (\<forall>i < length (clients w).
               clients w ! i \<in> set (clients (snd (snd (disconnectAll env w order))))
                 \<longleftrightarrow> isl (rs ! i))
         \<and> ext (fst (snd (disconnectAll env w order))) = xs ! length (clients w)
         \<and> ext (snd (snd (disconnectAll env w order))) = xs ! length (clients w)"
proof -
  let ?reg = "clients w"
  let ?n = "length ?reg"
  obtain ps x' where st: "startDisconnects env (ext w) ?reg (map fst ?reg) = (ps, x')"
    by (cases "startDisconnects env (ext w) ?reg (map fst ?reg)") auto
  have d: "distinct (map fst ?reg)" using keys by (simp add: map_keys_def)
  from startDisconnects_trace[OF registry_lookup[OF d] st] obtain xs where tr:
    "map fst ps = map fst ?reg" "length xs = Suc ?n" "xs ! 0 = ext w" "xs ! ?n = x'"
    "\<forall>i < ?n. clientClose env (xs ! i) (snd (?reg ! i)) = (snd (ps ! i), xs ! Suc i)"
    by blast
  define rs where "rs = map snd ps"
  have lps: "length ps = ?n" using tr(1) by (metis length_map)
  have lrs: "length rs = ?n" using lps by (simp add: rs_def)
  have psi: "ps ! i = (fst (?reg ! i), rs ! i)" if "i < ?n" for i
  proof -
    have "fst (ps ! i) = fst (?reg ! i)"
      using tr(1) that lps by (metis nth_map)
    then show ?thesis using that lps by (simp add: rs_def prod_eq_iff)
  qed
  have valid: "filter (\<lambda>i. i < length ps) order = order"
    using perm(2) lps by (auto simp: filter_id_conv)
  have ord: "i < ?n" if "i \<in> set order" for i using that perm(2) by auto
  let ?settled = "map (\<lambda>i. ps ! i) order"
  have settled_eq: "?settled = map (\<lambda>i. (fst (?reg ! i), rs ! i)) order"
    using psi ord by (intro map_cong) auto
  have da: "disconnectAll env w order =
      (promiseAll (map snd ?settled),
       \<lparr>clients = foldl resumeDisconnect ?reg (takeWhile (\<lambda>(serverId, r). \<not> isl r) ?settled), ext = x'\<rparr>,
       \<lparr>clients = foldl resumeDisconnect ?reg ?settled, ext = x'\<rparr>)"
    using st valid by (simp add: disconnectAll_def map_keys_def Let_def)
  have out: "fst (disconnectAll env w order) = promiseAll (map (\<lambda>i. rs ! i) order)"
    unfolding da settled_eq by (simp add: comp_def)
  have setrs: "set rs = (\<lambda>i. rs ! i) ` set order"
    using perm(2) lrs by (auto simp: set_conv_nth)
  have ok: "fst (disconnectAll env w order) = Inr () \<longleftrightarrow> (\<forall>r \<in> set rs. \<not> isl r)"
    unfolding out promiseAll_ok setrs by auto
  have tw: "takeWhile (\<lambda>(serverId, r). \<not> isl r) ?settled
      = map (\<lambda>i. (fst (?reg ! i), rs ! i)) (takeWhile (\<lambda>i. \<not> isl (rs ! i)) order)"
    unfolding settled_eq by (simp add: takeWhile_map comp_def)
  have atret: "clients (fst (snd (disconnectAll env w order))) =
             filter (\<lambda>(k, v). k \<notin> (\<lambda>i. fst (?reg ! i)) `
                                    set (takeWhile (\<lambda>i. \<not> isl (rs ! i)) order)) ?reg"
  proof -
    have "{p \<in> set (map (\<lambda>i. (fst (?reg ! i), rs ! i)) (takeWhile (\<lambda>i. \<not> isl (rs ! i)) order)).
                  \<not> isl (snd p)}
        = (\<lambda>i. (fst (?reg ! i), rs ! i)) ` set (takeWhile (\<lambda>i. \<not> isl (rs ! i)) order)"
      by (auto dest: set_takeWhileD)
    then have "fst ` {p \<in> set (map (\<lambda>i. (fst (?reg ! i), rs ! i)) (takeWhile (\<lambda>i. \<not> isl (rs ! i)) order)).
                  \<not> isl (snd p)}
        = (\<lambda>i. fst (?reg ! i)) ` set (takeWhile (\<lambda>i. \<not> isl (rs ! i)) order)"
      by (simp add: image_image)
    then show ?thesis
      unfolding da tw by (simp add: foldl_resumeDisconnect)
  qed
  have fin: "clients (snd (snd (disconnectAll env w order))) =
             filter (\<lambda>(k, v). k \<notin> (\<lambda>i. fst (?reg ! i)) ` {i. i < ?n \<and> \<not> isl (rs ! i)}) ?reg"
  proof -
    have so: "set (map (\<lambda>i. (fst (?reg ! i), rs ! i)) order)
                = (\<lambda>i. (fst (?reg ! i), rs ! i)) ` {i. i < ?n}"
      unfolding set_map perm(2) lessThan_def ..
    have "{p \<in> set (map (\<lambda>i. (fst (?reg ! i), rs ! i)) order). \<not> isl (snd p)}
        = (\<lambda>i. (fst (?reg ! i), rs ! i)) ` {i. i < ?n \<and> \<not> isl (rs ! i)}"
      unfolding so by auto
    then have "fst ` {p \<in> set (map (\<lambda>i. (fst (?reg ! i), rs ! i)) order). \<not> isl (snd p)}
        = (\<lambda>i. fst (?reg ! i)) ` {i. i < ?n \<and> \<not> isl (rs ! i)}"
      by (simp add: image_image)
    then show ?thesis
      unfolding da settled_eq by (simp add: foldl_resumeDisconnect)
  qed
  have mem: "?reg ! i \<in> set (clients (snd (snd (disconnectAll env w order)))) \<longleftrightarrow> isl (rs ! i)"
    if i: "i < ?n" for i
  proof -
    have "fst (?reg ! i) \<in> (\<lambda>i. fst (?reg ! i)) ` {i. i < ?n \<and> \<not> isl (rs ! i)} \<longleftrightarrow> \<not> isl (rs ! i)"
    proof
      assume "fst (?reg ! i) \<in> (\<lambda>i. fst (?reg ! i)) ` {i. i < ?n \<and> \<not> isl (rs ! i)}"
      then obtain j where j: "j < ?n" "\<not> isl (rs ! j)" "fst (?reg ! i) = fst (?reg ! j)" by auto
      from d i j(1,3) have "i = j"
        by (metis length_map nth_eq_iff_index_eq nth_map)
      with j(2) show "\<not> isl (rs ! i)" by simp
    next
      assume "\<not> isl (rs ! i)"
      with i show "fst (?reg ! i) \<in> (\<lambda>i. fst (?reg ! i)) ` {i. i < ?n \<and> \<not> isl (rs ! i)}" by auto
    qed
    then show ?thesis
      unfolding fin using i by (auto simp: case_prod_beta)
  qed
  have closes: "\<forall>i < ?n. clientClose env (xs ! i) (snd (?reg ! i)) = (rs ! i, xs ! Suc i)"
    using tr(5) psi by auto
  have exts: "ext (fst (snd (disconnectAll env w order))) = xs ! ?n"
      "ext (snd (snd (disconnectAll env w order))) = xs ! ?n"
    unfolding da using tr(4) by simp_all
  show ?thesis
    using lrs tr(2,3) closes out ok atret fin mem exts
    by (intro exI[of _ rs] exI[of _ xs]) blast
qed

theorem disconnectAll_outcome_witness:
  "distinct (map_keys (clients threeServersWorld))
   \<and> distinct [2, 1, 0 :: nat]
   \<and> set [2, 1, 0 :: nat] = {..<length (clients threeServersWorld)}
   \<and> disconnectAll stubbornEnv threeServersWorld [2, 1, 0] =
       (Inl ''close failed'',
        \<lparr>clients = [(''one'', sseInstance ''one''), (''bad'', sseInstance ''bad'')], ext = ()\<rparr>,
        \<lparr>clients = [(''bad'', sseInstance ''bad'')], ext = ()\<rparr>)
   \<and> disconnectAll quietEnv threeServersWorld [2, 1, 0] = (Inr (), emptyWorld, emptyWorld)"
proof -
  have k: "distinct (map_keys (clients threeServersWorld))"
    by (simp add: map_keys_def threeServersWorld_def)
  have d: "distinct [2, 1, 0 :: nat]" by simp
  have p: "set [2, 1, 0 :: nat] = {..<length (clients threeServersWorld)}"
    by (auto simp: threeServersWorld_def)
  have a: "disconnectAll stubbornEnv threeServersWorld [2, 1, 0] =
       (Inl ''close failed'',
        \<lparr>clients = [(''one'', sseInstance ''one''), (''bad'', sseInstance ''bad'')], ext = ()\<rparr>,
        \<lparr>clients = [(''bad'', sseInstance ''bad'')], ext = ()\<rparr>)"
    by (simp add: disconnectAll_def map_keys_def threeServersWorld_def stubbornEnv_def quietEnv_def
        sseInstance_def sseConfig_def map_delete_def)
  have b: "disconnectAll quietEnv threeServersWorld [2, 1, 0] = (Inr (), emptyWorld, emptyWorld)"
    by (simp add: disconnectAll_def map_keys_def threeServersWorld_def quietEnv_def
        sseInstance_def sseConfig_def map_delete_def emptyWorld_def)
  show ?thesis
    using k d p a b disconnectAll_outcome[OF k d p, of stubbornEnv]
      disconnectAll_outcome[OF k d p, of quietEnv]
    by simp
qed

section \<open>The naming scheme of the schema bridge\<close>

lemma str_includes_iff: "str_includes s sub \<longleftrightarrow> (\<exists>p q. s = p @ sub @ q)"
proof (induction s)
  case Nil
  then show ?case by auto
next
  case (Cons c cs)
  show ?case
  proof
    assume "str_includes (c # cs) sub"
    then consider "prefix sub (c # cs)" | "str_includes cs sub" by auto
    then show "\<exists>p q. c # cs = p @ sub @ q"
    proof cases
      case 1
      then obtain q where "c # cs = sub @ q" by (auto simp: prefix_def)
      then have "c # cs = [] @ sub @ q" by simp
      then show ?thesis by blast
    next
      case 2
      with Cons.IH obtain p q where "cs = p @ sub @ q" by blast
      then have "c # cs = (c # p) @ sub @ q" by simp
      then show ?thesis by blast
    qed
  next
    assume "\<exists>p q. c # cs = p @ sub @ q"
    then obtain p q where pq: "c # cs = p @ sub @ q" by blast
    show "str_includes (c # cs) sub"
    proof (cases p)
      case Nil
      with pq have "prefix sub (c # cs)" by (simp add: prefix_def)
      then show ?thesis by simp
    next
      case (Cons a p')
      with pq have "cs = p' @ sub @ q" by simp
      with Cons.IH have "str_includes cs sub" by blast
      then show ?thesis by simp
    qed
  qed
qed

lemma overlap_is_empty:
  assumes "unambiguousServerId (s @ us)" and "us @ ''__'' @ t1 = ''__'' @ t2"
  shows "us = []"
proof (cases us)
  case Nil
  then show ?thesis .
next
  case (Cons a us')
  with assms(2) have a: "a = CHR ''_''" by simp
  show ?thesis
  proof (cases us')
    case Nil
    with Cons a have "suffix ''_'' (s @ us)" by (simp add: suffix_def)
    with assms(1) show ?thesis by (simp add: unambiguousServerId_def)
  next
    case (Cons b us'')
    with \<open>us = a # us'\<close> assms(2) a have "b = CHR ''_''" by simp
    with Cons \<open>us = a # us'\<close> a have "s @ us = s @ ''__'' @ us''" by simp
    then have "str_includes (s @ us) ''__''" unfolding str_includes_iff by blast
    with assms(1) show ?thesis by (simp add: unambiguousServerId_def)
  qed
qed

lemma functionName_inj:
  assumes "unambiguousServerId s1" "unambiguousServerId s2"
    and "functionName s1 t1 = functionName s2 t2"
  shows "s1 = s2 \<and> t1 = t2"
proof -
  from assms(3) have "s1 @ (''__'' @ t1) = s2 @ (''__'' @ t2)" by (simp add: functionName_def)
  then obtain us where
    "(s1 = s2 @ us \<and> us @ (''__'' @ t1) = ''__'' @ t2) \<or> (s1 @ us = s2 \<and> ''__'' @ t1 = us @ (''__'' @ t2))"
    unfolding append_eq_append_conv2 by blast
  then have "us = []"
    using overlap_is_empty[of s2 us t1 t2] overlap_is_empty[of s1 us t2 t1] assms(1,2) by auto
  with \<open>(s1 = s2 @ us \<and> us @ (''__'' @ t1) = ''__'' @ t2) \<or> (s1 @ us = s2 \<and> ''__'' @ t1 = us @ (''__'' @ t2))\<close>
  show ?thesis by auto
qed

text \<open>
  The servers \<open>a__b\<close> (tool \<open>c\<close>) and \<open>a\<close> (tool \<open>b__c\<close>) are both registered, under
  the one name \<open>a__b__c\<close>, and resolving the bridged name of \<open>(a__b, c)\<close> yields
  \<open>(a, b__c)\<close>: nothing is escaped and nothing is rejected.
\<close>

theorem separator_in_names_collides:
  "(case registerTools twoServersEnv twoServersWorld twoSelections of
      (w, functionDeclarations, toolMap) \<Rightarrow>
        (map fd_name functionDeclarations,
         toolMap (fd_name (convertMCPToolToFunctionDeclaration (plainTool ''c'') ''a__b''))))
   = ([''a__b__c'', ''a__b__c''],
      Some \<lparr>ti_serverId = ''a'', ti_toolName = ''b__c'', ti_serverName = ''second''\<rparr>)"
  by (simp add: registerTools_def registerTool_def twoServersEnv_def twoServersWorld_def
      twoSelections_def quietEnv_def isConnected_def map_has_def listTools_def getClient_def
      callExt_def sseInstance_def sseConfig_def plainTool_def
      convertMCPToolToFunctionDeclaration_def functionName_def)

lemma registerTool_tableInv:
  assumes "registerTool env (w, ds, tm) e = (w', ds', tm')" "e \<in> set sel" "tableInv sel (ds, tm)"
  shows "tableInv sel (ds', tm')"
proof (cases "isConnected w (et_serverId e)")
  case False
  with assms show ?thesis by (simp add: registerTool_def)
next
  case True
  obtain r w1 where l: "listTools env w (et_serverId e) = (r, w1)"
    by (cases "listTools env w (et_serverId e)") auto
  show ?thesis
  proof (cases r)
    case (Inl err)
    with assms True l show ?thesis by (simp add: registerTool_def)
  next
    case (Inr tools)
    show ?thesis
    proof (cases "find (\<lambda>t. tool_name t = et_toolName e) tools")
      case None
      with assms True l Inr show ?thesis by (simp add: registerTool_def)
    next
      case (Some tool)
      then have n: "tool_name tool = et_toolName e" by (auto simp: find_Some_iff)
      have ds': "ds' = ds @ [convertMCPToolToFunctionDeclaration tool (et_serverId e)]"
        and tm': "tm' = tm(functionName (et_serverId e) (et_toolName e) \<mapsto>
                     \<lparr>ti_serverId = et_serverId e, ti_toolName = et_toolName e,
                      ti_serverName = et_serverName e\<rparr>)"
        using assms(1) True l Inr Some n
        by (simp_all add: registerTool_def Let_def convertMCPToolToFunctionDeclaration_def)
      have fdn: "fd_name (convertMCPToolToFunctionDeclaration tool (et_serverId e))
                  = functionName (et_serverId e) (et_toolName e)"
        using n by (simp add: convertMCPToolToFunctionDeclaration_def)
      show ?thesis
        using assms(2,3) unfolding tableInv_def ds' tm'
        by (auto simp: fdn)
    qed
  qed
qed

lemma registerTools_tableInv_aux:
  assumes "foldl (registerTool env) (w, ds, tm) es = (w', ds', tm')" "set es \<subseteq> set sel"
    "tableInv sel (ds, tm)"
  shows "tableInv sel (ds', tm')"
  using assms
proof (induction es arbitrary: w ds tm)
  case Nil
  then show ?case by simp
next
  case (Cons e es)
  obtain w1 ds1 tm1 where s: "registerTool env (w, ds, tm) e = (w1, ds1, tm1)"
    by (cases "registerTool env (w, ds, tm) e") auto
  have i: "tableInv sel (ds1, tm1)"
    using registerTool_tableInv[OF s _ Cons.prems(3)] Cons.prems(2) by simp
  show ?case
    using Cons.IH[OF _ _ i] Cons.prems(1,2) s by simp
qed

text \<open>
  Claim C2, amended. When no server id among the enabled tools holds \<open>__\<close> or ends in
  \<open>_\<close> (tool names are free to hold the separator), every function declared to the
  model resolves, every entry of the table is keyed by the bridged name of its own pair,
  and resolving the bridged name of a pair with such a server id yields exactly that
  pair. Two servers exposing a tool of the same name never get the same function name,
  whatever their ids.
\<close>

theorem bridged_name_resolves_to_its_pair:
  assumes reg: "registerTools env w enabledTools = (w', functionDeclarations, toolMap)"
    and ids: "\<forall>e \<in> set enabledTools. unambiguousServerId (et_serverId e)"
  shows "(\<forall>d \<in> set functionDeclarations. toolMap (fd_name d) \<noteq> None)
       \<and> (\<forall>name info. toolMap name = Some info \<longrightarrow>
             name = functionName (ti_serverId info) (ti_toolName info)
           \<and> (\<exists>e \<in> set enabledTools. ti_serverId info = et_serverId e
                  \<and> ti_toolName info = et_toolName e \<and> ti_serverName info = et_serverName e))
       \<and> (\<forall>serverId toolName info.
             unambiguousServerId serverId \<longrightarrow>
             toolMap (functionName serverId toolName) = Some info \<longrightarrow>
             ti_serverId info = serverId \<and> ti_toolName info = toolName)
       \<and> (\<forall>s1 s2 toolName. functionName s1 toolName = functionName s2 toolName \<longrightarrow> s1 = s2)"
proof -
  have inv: "tableInv enabledTools (functionDeclarations, toolMap)"
    using registerTools_tableInv_aux[of env w "[]" Map.empty enabledTools w' functionDeclarations
        toolMap enabledTools] reg
    by (simp add: registerTools_def tableInv_def)
  have exact: "ti_serverId info = serverId \<and> ti_toolName info = toolName"
    if u: "unambiguousServerId serverId"
      and r: "toolMap (functionName serverId toolName) = Some info"
    for serverId toolName info
  proof -
    have every: "\<forall>name info. toolMap name = Some info \<longrightarrow>
         name = functionName (ti_serverId info) (ti_toolName info)
       \<and> (\<exists>e \<in> set enabledTools. ti_serverId info = et_serverId e \<and> ti_toolName info = et_toolName e
                        \<and> ti_serverName info = et_serverName e)"
      using inv by (simp add: tableInv_def)
    from every r have n: "functionName serverId toolName = functionName (ti_serverId info) (ti_toolName info)"
      by blast
    from every r obtain e where "e \<in> set enabledTools" "ti_serverId info = et_serverId e"
      by blast
    with ids have "unambiguousServerId (ti_serverId info)" by auto
    from functionName_inj[OF u this n] show ?thesis by simp
  qed
  have same: "s1 = s2" if "functionName s1 toolName = functionName s2 toolName" for s1 s2 toolName
    using that by (simp add: functionName_def)
  show ?thesis
    using inv exact same unfolding tableInv_def by auto
qed

theorem bridged_name_resolves_to_its_pair_witness:
  "registerTools calcEnv calcWorld [calcSelection] =
     (calcWorld, [convertMCPToolToFunctionDeclaration (plainTool ''add'') ''calc''], calcToolMap)
   \<and> unambiguousServerId ''calc''
   \<and> calcToolMap (functionName ''calc'' ''add'') =
       Some \<lparr>ti_serverId = ''calc'', ti_toolName = ''add'', ti_serverName = ''Calculator''\<rparr>"
proof -
  have reg: "registerTools calcEnv calcWorld [calcSelection] =
     (calcWorld, [convertMCPToolToFunctionDeclaration (plainTool ''add'') ''calc''], calcToolMap)"
    by (simp add: registerTools_def registerTool_def calcEnv_def calcWorld_def calcSelection_def
        quietEnv_def isConnected_def map_has_def listTools_def getClient_def callExt_def
        plainTool_def convertMCPToolToFunctionDeclaration_def functionName_def calcToolMap_def)
  have u: "unambiguousServerId ''calc''"
    by (simp add: unambiguousServerId_def suffix_def)
  have ids: "\<forall>e \<in> set [calcSelection]. unambiguousServerId (et_serverId e)"
    using u by (simp add: calcSelection_def)
  have r: "calcToolMap (functionName ''calc'' ''add'') =
       Some \<lparr>ti_serverId = ''calc'', ti_toolName = ''add'', ti_serverName = ''Calculator''\<rparr>"
    by (simp add: calcToolMap_def functionName_def)
  show ?thesis
    using reg u r bridged_name_resolves_to_its_pair[OF reg ids]
    by simp
qed

section \<open>The budget of the function-calling loop\<close>

lemma orchestrate_done:
  "\<not> ls_iterationCount s < maxIterations \<Longrightarrow> orchestrate env toolMap s = (None, s)"
  by (subst orchestrate.simps) simp

lemma orchestrate_budget:
  "\<exists>more.
     chat_exchanges (ls_chat (snd (orchestrate env toolMap s))) = chat_exchanges (ls_chat s) @ more
   \<and> length more \<le> maxIterations - ls_iterationCount s
   \<and> list_all (\<lambda>(m, r). isFunctionResponses m) more
   \<and> (length more = maxIterations - ls_iterationCount s \<and> ls_iterationCount s < maxIterations \<longrightarrow>
        ls_iterationCount (snd (orchestrate env toolMap s)) = maxIterations
      \<and> snd (last more) =
          (case fst (orchestrate env toolMap s) of
             None \<Rightarrow> Inr (ls_response (snd (orchestrate env toolMap s)))
           | Some e \<Rightarrow> Inl e))"
proof (induction env toolMap s rule: orchestrate.induct)
  case (1 env toolMap s)
  show ?case
  proof (cases "ls_iterationCount s < maxIterations")
    case False
    then show ?thesis by (simp add: orchestrate.simps[of env toolMap s])
  next
    case lt: True
    show ?thesis
    proof (cases "proposedCalls (ls_response s) = []")
      case True
      with lt show ?thesis by (simp add: orchestrate.simps[of env toolMap s])
    next
      case ne: False
      obtain w1 tcs frs where e: "executeFunctionCalls env toolMap (ls_world s, ls_toolCalls s, [])
                   (proposedCalls (ls_response s)) = (w1, tcs, frs)"
        by (cases "executeFunctionCalls env toolMap (ls_world s, ls_toolCalls s, [])
                   (proposedCalls (ls_response s))") auto
      obtain r w2 chat where m: "sendMessage env w1 (ls_chat s) (FunctionResponses frs) = (r, w2, chat)"
        by (cases "sendMessage env w1 (ls_chat s) (FunctionResponses frs)") auto
      have c: "chat_exchanges chat = chat_exchanges (ls_chat s) @ [(FunctionResponses frs, r)]"
        using m by (auto simp: sendMessage_def split: prod.splits)
      show ?thesis
      proof (cases r)
        case (Inl err)
        have o: "orchestrate env toolMap s =
                   (Some err, s\<lparr>ls_iterationCount := Suc (ls_iterationCount s), ls_world := w2,
                                ls_chat := chat, ls_toolCalls := tcs\<rparr>)"
          using lt ne e m Inl by (simp add: orchestrate.simps[of env toolMap s])
        show ?thesis
          unfolding o using c lt Inl
          by (intro exI[of _ "[(FunctionResponses frs, r)]"]) auto
      next
        case (Inr response)
        let ?s2 = "s\<lparr>ls_iterationCount := Suc (ls_iterationCount s), ls_world := w2,
                     ls_chat := chat, ls_toolCalls := tcs, ls_response := response\<rparr>"
        have o: "orchestrate env toolMap s = orchestrate env toolMap ?s2"
          using lt ne e m Inr by (simp add: orchestrate.simps[of env toolMap s])
        from "1.IH"[OF lt ne e[symmetric] refl m[symmetric] Inr refl]
        obtain more where ih:
          "chat_exchanges (ls_chat (snd (orchestrate env toolMap ?s2))) = chat_exchanges chat @ more"
          "length more \<le> maxIterations - Suc (ls_iterationCount s)"
          "list_all (\<lambda>(m, r). isFunctionResponses m) more"
          "length more = maxIterations - Suc (ls_iterationCount s) \<and> Suc (ls_iterationCount s) < maxIterations \<longrightarrow>
             ls_iterationCount (snd (orchestrate env toolMap ?s2)) = maxIterations
           \<and> snd (last more) =
               (case fst (orchestrate env toolMap ?s2) of
                  None \<Rightarrow> Inr (ls_response (snd (orchestrate env toolMap ?s2)))
                | Some e \<Rightarrow> Inl e)"
          by auto
        have edge: "Suc (ls_iterationCount s) = maxIterations \<Longrightarrow>
           orchestrate env toolMap ?s2 = (None, ?s2)"
          by (rule orchestrate_done) simp
        show ?thesis
          unfolding o
        proof (intro exI[of _ "(FunctionResponses frs, r) # more"] conjI impI)
          show "chat_exchanges (ls_chat (snd (orchestrate env toolMap ?s2))) =
                  chat_exchanges (ls_chat s) @ (FunctionResponses frs, r) # more"
            using ih(1) c by simp
          show "length ((FunctionResponses frs, r) # more) \<le> maxIterations - ls_iterationCount s"
            using ih(2) lt by simp
          show "list_all (\<lambda>(m, r). isFunctionResponses m) ((FunctionResponses frs, r) # more)"
            using ih(3) by simp
        next
          assume a: "length ((FunctionResponses frs, r) # more) = maxIterations - ls_iterationCount s
                     \<and> ls_iterationCount s < maxIterations"
          show "ls_iterationCount (snd (orchestrate env toolMap ?s2)) = maxIterations"
          proof (cases "Suc (ls_iterationCount s) = maxIterations")
            case True
            then show ?thesis using edge by simp
          next
            case False
            with a ih(4) lt show ?thesis by auto
          qed
          show "snd (last ((FunctionResponses frs, r) # more)) =
                  (case fst (orchestrate env toolMap ?s2) of
                     None \<Rightarrow> Inr (ls_response (snd (orchestrate env toolMap ?s2)))
                   | Some e \<Rightarrow> Inl e)"
          proof (cases "Suc (ls_iterationCount s) = maxIterations")
            case True
            from a have "Suc (length more) = maxIterations - ls_iterationCount s" by simp
            with True have "length more = 0" by arith
            then have "more = []" by simp
            with True edge Inr show ?thesis by simp
          next
            case False
            with a lt have l: "length more = maxIterations - Suc (ls_iterationCount s)"
              and "Suc (ls_iterationCount s) < maxIterations" by auto
            then have "more \<noteq> []" by auto
            with ih(4) l \<open>Suc (ls_iterationCount s) < maxIterations\<close> show ?thesis by simp
          qed
        qed
      qed
    qed
  qed
qed

lemma orchestrate_run:
  "\<exists>more records.
     chat_exchanges (ls_chat (snd (orchestrate env toolMap s))) = chat_exchanges (ls_chat s) @ more
   \<and> ls_toolCalls (snd (orchestrate env toolMap s)) = ls_toolCalls s @ records
   \<and> loopRun (maxIterations - ls_iterationCount s) (ls_response s) more
   \<and> list_all2 (\<lambda>(message, reply) response.
                  \<exists>frs. message = FunctionResponses frs \<and> answers toolMap frs (proposedCalls response))
        more (inspectedResponses (ls_response s) more)
   \<and> map recordedFor records =
       concat (map (\<lambda>response. List.map_filter (\<lambda>c. toolMap (fc_name c)) (proposedCalls response))
                   (inspectedResponses (ls_response s) more))
   \<and> (fst (orchestrate env toolMap s) = None \<longleftrightarrow> list_all (\<lambda>(message, reply). \<not> isl reply) more)"
proof (induction env toolMap s rule: orchestrate.induct)
  case (1 env toolMap s)
  show ?case
  proof (cases "ls_iterationCount s < maxIterations")
    case False
    then have "orchestrate env toolMap s = (None, s)" by (rule orchestrate_done)
    then show ?thesis using False by (intro exI[of _ "[]"]) simp
  next
    case lt: True
    show ?thesis
    proof (cases "proposedCalls (ls_response s) = []")
      case True
      with lt show ?thesis
        by (intro exI[of _ "[]"]) (simp add: orchestrate.simps[of env toolMap s])
    next
      case ne: False
      obtain w1 recs frs where e: "executeFunctionCalls env toolMap (ls_world s, ls_toolCalls s, [])
                   (proposedCalls (ls_response s)) = (w1, ls_toolCalls s @ recs, frs)"
        and ans: "answers toolMap frs (proposedCalls (ls_response s))"
        and rec: "map recordedFor recs
                    = List.map_filter (\<lambda>c. toolMap (fc_name c)) (proposedCalls (ls_response s))"
        using executeFunctionCalls_answers[of env toolMap "ls_world s" "ls_toolCalls s" "[]"
            "proposedCalls (ls_response s)"]
        by (elim exE conjE) (rule that, simp_all)
      obtain r w2 chat where m: "sendMessage env w1 (ls_chat s) (FunctionResponses frs) = (r, w2, chat)"
        by (cases "sendMessage env w1 (ls_chat s) (FunctionResponses frs)") auto
      have c: "chat_exchanges chat = chat_exchanges (ls_chat s) @ [(FunctionResponses frs, r)]"
        using m by (auto simp: sendMessage_def split: prod.splits)
      have pos: "0 < maxIterations - ls_iterationCount s" using lt by simp
      show ?thesis
      proof (cases r)
        case (Inl err)
        have o: "orchestrate env toolMap s =
                   (Some err, s\<lparr>ls_iterationCount := Suc (ls_iterationCount s), ls_world := w2,
                                ls_chat := chat, ls_toolCalls := ls_toolCalls s @ recs\<rparr>)"
          using lt ne e m Inl by (simp add: orchestrate.simps[of env toolMap s])
        show ?thesis
          unfolding o using c pos ne Inl ans rec
          by (intro exI[of _ "[(FunctionResponses frs, r)]"] exI[of _ recs]) simp
      next
        case (Inr response)
        let ?s2 = "s\<lparr>ls_iterationCount := Suc (ls_iterationCount s), ls_world := w2,
                     ls_chat := chat, ls_toolCalls := ls_toolCalls s @ recs, ls_response := response\<rparr>"
        have o: "orchestrate env toolMap s = orchestrate env toolMap ?s2"
          using lt ne e m Inr by (simp add: orchestrate.simps[of env toolMap s])
        from "1.IH"[OF lt ne e[symmetric] refl m[symmetric] Inr refl]
        obtain more recs2 where ih:
          "chat_exchanges (ls_chat (snd (orchestrate env toolMap ?s2))) = chat_exchanges chat @ more"
          "ls_toolCalls (snd (orchestrate env toolMap ?s2)) = (ls_toolCalls s @ recs) @ recs2"
          "loopRun (maxIterations - Suc (ls_iterationCount s)) response more"
          "list_all2 (\<lambda>(message, reply) response.
                  \<exists>frs. message = FunctionResponses frs \<and> answers toolMap frs (proposedCalls response))
             more (inspectedResponses response more)"
          "map recordedFor recs2 =
             concat (map (\<lambda>response. List.map_filter (\<lambda>c. toolMap (fc_name c)) (proposedCalls response))
                   (inspectedResponses response more))"
          "fst (orchestrate env toolMap ?s2) = None \<longleftrightarrow> list_all (\<lambda>(message, reply). \<not> isl reply) more"
          by (elim exE conjE) (rule that, simp_all)
        have "maxIterations - Suc (ls_iterationCount s) = maxIterations - ls_iterationCount s - 1"
          by arith
        with ih(3) have lr: "loopRun (maxIterations - ls_iterationCount s - 1) response more"
          by (simp only:)
        have run: "loopRun (maxIterations - ls_iterationCount s) (ls_response s)
                     ((FunctionResponses frs, r) # more)"
          using lr pos ne Inr by (simp only: loopRun.simps sum.case) simp
        show ?thesis
          unfolding o
          using ih(1,2,4,5,6) c Inr ans rec run
          by (intro exI[of _ "(FunctionResponses frs, r) # more"] exI[of _ "recs @ recs2"]) simp
      qed
    qed
  qed
qed

lemma POST_run:
  assumes "POST env w req = (response, exchanges, w')"
  shows "exchanges = []
       \<or> (\<exists>userMessage e. exchanges = [(UserText userMessage, Inl e)])
       \<or> (\<exists>s0 r s userMessage first.
             ls_iterationCount s0 = 0
           \<and> ls_toolCalls s0 = []
           \<and> ls_response s0 = first
           \<and> chat_exchanges (ls_chat s0) = [(UserText userMessage, Inr first)]
           \<and> orchestrate env (snd (snd (compiledTools env w req))) s0 = (r, s)
           \<and> exchanges = chat_exchanges (ls_chat s)
           \<and> (r \<noteq> None \<longrightarrow> response = \<lparr>status = 500, body = ErrorBody serverError\<rparr>)
           \<and> (r = None \<longrightarrow>
                response =
                  \<lparr>status = 200,
                   body = ChatBody
                     (if maxIterations \<le> ls_iterationCount s
                      then orElse (Some (responseText (ls_response s))) tooManyToolCalls
                      else ls_finalResponse s)
                     (if ls_toolCalls s \<noteq> [] then Some (ls_toolCalls s) else None)\<rparr>))"
proof (cases "truthy (processEnv env (ext w) ''GEMINI_API_KEY'')")
  case False
  with assms show ?thesis by (simp add: POST_def)
next
  case key: True
  show ?thesis
  proof (cases "req_messages req")
    case None
    with assms key show ?thesis by (simp add: POST_def)
  next
    case (Some messages)
    define userMessage where "userMessage = (if messages = [] then [] else msg_content (last messages))"
    show ?thesis
    proof (cases "userMessage = []")
      case True
      with assms key Some show ?thesis by (simp add: POST_def userMessage_def Let_def)
    next
      case um: False
      obtain w0 functionDeclarations toolMap where reg0:
        "compiledTools env w req = (w0, functionDeclarations, toolMap)"
        by (metis prod_cases3)
      then have reg:
        "(if req_mcpEnabled req \<and> req_enabledTools req \<noteq> None \<and> req_enabledTools req \<noteq> Some []
          then registerTools env w (case req_enabledTools req of None \<Rightarrow> [] | Some ts \<Rightarrow> ts)
          else (w, [], Map.empty)) = (w0, functionDeclarations, toolMap)"
        by (simp only: compiledTools_def)
      have tm: "snd (snd (compiledTools env w req)) = toolMap"
        using reg0 by simp
      define chat where "chat =
         \<lparr>chat_tools = (if functionDeclarations \<noteq> [] then Some functionDeclarations else None),
          chat_history =
            map (\<lambda>msg. (if msg_role msg = ''user'' then ''user'' else ''model'', msg_content msg))
                (butlast messages),
          chat_exchanges = []\<rparr>"
      obtain r1 w1 chat1 where send: "sendMessage env w0 chat (UserText userMessage) = (r1, w1, chat1)"
        by (metis prod_cases3)
      have ex1: "chat_exchanges chat1 = [(UserText userMessage, r1)]"
        using send by (auto simp: sendMessage_def chat_def split: prod.splits)
      show ?thesis
      proof (cases r1)
        case (Inl e)
        have "exchanges = [(UserText userMessage, Inl e)]"
          using assms key Some um reg send ex1 Inl
          by (simp add: POST_def Let_def userMessage_def[symmetric] chat_def[symmetric])
        then show ?thesis by blast
      next
        case (Inr first)
        define s0 where "s0 =
           \<lparr>ls_world = w1, ls_chat = chat1, ls_toolCalls = [], ls_response = first,
            ls_finalResponse = [], ls_iterationCount = 0\<rparr>"
        obtain r s where run: "orchestrate env toolMap s0 = (r, s)"
          by (cases "orchestrate env toolMap s0") auto
        have post: "POST env w req =
            (case r of
               Some e \<Rightarrow> (\<lparr>status = 500, body = ErrorBody serverError\<rparr>, chat_exchanges (ls_chat s), ls_world s)
             | None \<Rightarrow>
                 (\<lparr>status = 200,
                   body = ChatBody
                     (if maxIterations \<le> ls_iterationCount s
                      then orElse (Some (responseText (ls_response s))) tooManyToolCalls
                      else ls_finalResponse s)
                     (if ls_toolCalls s \<noteq> [] then Some (ls_toolCalls s) else None)\<rparr>,
                  chat_exchanges (ls_chat s), ls_world s))"
          using key Some um reg send Inr run
          by (simp add: POST_def Let_def userMessage_def[symmetric] chat_def[symmetric]
              s0_def[symmetric] split: option.splits)
        have "ls_iterationCount s0 = 0
           \<and> ls_toolCalls s0 = []
           \<and> ls_response s0 = first
           \<and> chat_exchanges (ls_chat s0) = [(UserText userMessage, Inr first)]
           \<and> orchestrate env (snd (snd (compiledTools env w req))) s0 = (r, s)
           \<and> exchanges = chat_exchanges (ls_chat s)
           \<and> (r \<noteq> None \<longrightarrow> response = \<lparr>status = 500, body = ErrorBody serverError\<rparr>)
           \<and> (r = None \<longrightarrow>
                response =
                  \<lparr>status = 200,
                   body = ChatBody
                     (if maxIterations \<le> ls_iterationCount s
                      then orElse (Some (responseText (ls_response s))) tooManyToolCalls
                      else ls_finalResponse s)
                     (if ls_toolCalls s \<noteq> [] then Some (ls_toolCalls s) else None)\<rparr>)"
          unfolding tm
          using assms post run ex1 Inr by (auto simp: s0_def split: option.splits)
        then show ?thesis by blast
      qed
    qed
  qed
qed

lemma POST_shape:
  assumes "POST env w req = (response, exchanges, w')"
  shows "exchanges = []
       \<or> (\<exists>userMessage e. exchanges = [(UserText userMessage, Inl e)])
       \<or> (\<exists>toolMap s0 r s userMessage first.
             ls_iterationCount s0 = 0
           \<and> chat_exchanges (ls_chat s0) = [(UserText userMessage, Inr first)]
           \<and> orchestrate env toolMap s0 = (r, s)
           \<and> exchanges = chat_exchanges (ls_chat s)
           \<and> (r = None \<longrightarrow>
                response =
                  \<lparr>status = 200,
                   body = ChatBody
                     (if maxIterations \<le> ls_iterationCount s
                      then orElse (Some (responseText (ls_response s))) tooManyToolCalls
                      else ls_finalResponse s)
                     (if ls_toolCalls s \<noteq> [] then Some (ls_toolCalls s) else None)\<rparr>))"
  using POST_run[OF assms] by blast

text \<open>
  Claim C1. For every chat request the loop performs at most \<open>maxIterations = 10\<close>
  round-trips with the model, that is calls of \<open>chat.sendMessage\<close> that submit function
  responses, also when every response proposes a function call; an eleventh never occurs.
  With the one call made before the loop, a request makes at most eleven calls of
  \<open>chat.sendMessage\<close>.
\<close>

theorem at_most_eleven_sendMessage_calls:
  "length (fst (snd (POST env w req))) \<le> 11
   \<and> length (filter (\<lambda>(message, reply). isFunctionResponses message) (fst (snd (POST env w req)))) \<le> 10"
proof -
  obtain response exchanges w' where p: "POST env w req = (response, exchanges, w')"
    by (metis prod_cases3)
  from POST_shape[OF p] consider
      "exchanges = []"
    | userMessage e where "exchanges = [(UserText userMessage, Inl e)]"
    | toolMap s0 r s userMessage first where
        "ls_iterationCount s0 = 0"
        "chat_exchanges (ls_chat s0) = [(UserText userMessage, Inr first)]"
        "orchestrate env toolMap s0 = (r, s)"
        "exchanges = chat_exchanges (ls_chat s)"
    by blast
  then have "length exchanges \<le> 11
    \<and> length (filter (\<lambda>(message, reply). isFunctionResponses message) exchanges) \<le> 10"
  proof cases
    case 1
    then show ?thesis by simp
  next
    case 2
    then show ?thesis by simp
  next
    case 3
    from orchestrate_budget[of env toolMap s0] 3 obtain more where m:
      "exchanges = [(UserText userMessage, Inr first)] @ more"
      "length more \<le> maxIterations"
      "list_all (\<lambda>(m, r). isFunctionResponses m) more"
      by auto
    have "filter (\<lambda>(message, reply). isFunctionResponses message) more = more"
      using m(3) by (simp add: list_all_iff filter_id_conv)
    then show ?thesis using m by (simp add: maxIterations_def)
  qed
  then show ?thesis using p by simp
qed

theorem at_most_eleven_sendMessage_calls_witness:
  "length (fst (snd (POST (insistentEnv ''partial'') emptyWorld helloRequest))) = 11
   \<and> length (filter (\<lambda>(message, reply). isFunctionResponses message)
               (fst (snd (POST (insistentEnv ''partial'') emptyWorld helloRequest)))) = 10"
proof -
  have "fst (snd (POST (insistentEnv ''partial'') emptyWorld helloRequest)) =
     (UserText ''hello'',
        Inr \<lparr>functionCalls = Some [\<lparr>fc_name = ''nosuch'', fc_args = ''{}''\<rparr>], responseText = ''partial''\<rparr>)
     # replicate 10
        (FunctionResponses [\<lparr>fr_name = ''nosuch'', fr_response = ErrorPayload ''Unknown tool''\<rparr>],
         Inr \<lparr>functionCalls = Some [\<lparr>fc_name = ''nosuch'', fc_args = ''{}''\<rparr>], responseText = ''partial''\<rparr>)"
    by (simp add: POST_def insistentEnv_def quietEnv_def emptyWorld_def helloRequest_def
      sendMessage_def callExt_def maxIterations_def proposedCalls_def executeFunctionCalls_def
      executeFunctionCall_def orchestrate.simps numeral_eq_Suc)
  then show ?thesis
    using at_most_eleven_sendMessage_calls[of "insistentEnv ''partial''" emptyWorld helloRequest]
    by simp
qed

text \<open>
  The same model answers every turn with the text \<open>partial\<close>: after the exhausted loop
  the response content is that text alone, with no note of the truncation.
\<close>

theorem text_returned_without_truncation_note:
  "fst (POST (insistentEnv ''partial'') emptyWorld helloRequest) =
     \<lparr>status = 200, body = ChatBody ''partial'' None\<rparr>
   \<and> length (fst (snd (POST (insistentEnv ''partial'') emptyWorld helloRequest))) = 11
   \<and> \<not> str_includes ''partial'' tooManyToolCalls"
  by (simp add: POST_def insistentEnv_def quietEnv_def emptyWorld_def helloRequest_def
      sendMessage_def callExt_def maxIterations_def proposedCalls_def executeFunctionCalls_def
      executeFunctionCall_def orchestrate.simps tooManyToolCalls_def bytes_def)

text \<open>
  Claim C6, amended. When the loop has used its whole budget, that is when all eleven
  exchanges were made and the last one returned a response, the handler answers with
  status 200 and, as content, the text of that last response when it is not empty and the
  fixed truncation note otherwise: the note stands in for an empty text and is not added
  to a text.
\<close>

theorem exhausted_loop_returns_text_or_note:
  assumes "POST env w req = (response, exchanges, w')"
    and "length exchanges = 11"
    and "snd (last exchanges) = Inr lastResponse"
  shows "\<exists>toolCalls.
           response =
             \<lparr>status = 200,
              body = ChatBody
                (if responseText lastResponse = [] then tooManyToolCalls
                 else responseText lastResponse)
                toolCalls\<rparr>"
proof -
  from POST_shape[OF assms(1)] assms(2) obtain toolMap s0 r s userMessage first where h:
        "ls_iterationCount s0 = 0"
        "chat_exchanges (ls_chat s0) = [(UserText userMessage, Inr first)]"
        "orchestrate env toolMap s0 = (r, s)"
        "exchanges = chat_exchanges (ls_chat s)"
        "r = None \<longrightarrow>
                response =
                  \<lparr>status = 200,
                   body = ChatBody
                     (if maxIterations \<le> ls_iterationCount s
                      then orElse (Some (responseText (ls_response s))) tooManyToolCalls
                      else ls_finalResponse s)
                     (if ls_toolCalls s \<noteq> [] then Some (ls_toolCalls s) else None)\<rparr>"
    by auto
  have os: "snd (orchestrate env toolMap s0) = s" "fst (orchestrate env toolMap s0) = r"
    using h(3) by simp_all
  from orchestrate_budget[of env toolMap s0] obtain more where m0:
      "chat_exchanges (ls_chat (snd (orchestrate env toolMap s0))) = chat_exchanges (ls_chat s0) @ more"
      "length more = maxIterations - ls_iterationCount s0 \<and> ls_iterationCount s0 < maxIterations \<longrightarrow>
        ls_iterationCount (snd (orchestrate env toolMap s0)) = maxIterations
      \<and> snd (last more) =
          (case fst (orchestrate env toolMap s0) of
             None \<Rightarrow> Inr (ls_response (snd (orchestrate env toolMap s0)))
           | Some e \<Rightarrow> Inl e)"
    by blast
  have m: "exchanges = [(UserText userMessage, Inr first)] @ more"
      "length more = maxIterations - ls_iterationCount s0 \<and> ls_iterationCount s0 < maxIterations \<longrightarrow>
        ls_iterationCount s = maxIterations
      \<and> snd (last more) = (case r of None \<Rightarrow> Inr (ls_response s) | Some e \<Rightarrow> Inl e)"
    using m0[unfolded os] h(2,4) by simp_all
  from m(1) assms(2) have len: "length more = 10" by simp
  then have ne: "more \<noteq> []" by auto
  from m(2) len h(1) have full: "ls_iterationCount s = maxIterations"
    and lastm: "snd (last more) = (case r of None \<Rightarrow> Inr (ls_response s) | Some e \<Rightarrow> Inl e)"
    by (simp_all add: maxIterations_def)
  from m(1) ne have "last exchanges = last more" by simp
  with assms(3) lastm have r: "r = None" and l: "ls_response s = lastResponse"
    by (auto split: option.splits)
  from h(5) r full l show ?thesis by auto
qed

theorem exhausted_loop_returns_text_or_note_witness:
  "POST (insistentEnv []) emptyWorld helloRequest =
     (\<lparr>status = 200, body = ChatBody tooManyToolCalls None\<rparr>,
      (UserText ''hello'',
         Inr \<lparr>functionCalls = Some [\<lparr>fc_name = ''nosuch'', fc_args = ''{}''\<rparr>], responseText = []\<rparr>)
      # replicate 10
         (FunctionResponses [\<lparr>fr_name = ''nosuch'', fr_response = ErrorPayload ''Unknown tool''\<rparr>],
          Inr \<lparr>functionCalls = Some [\<lparr>fc_name = ''nosuch'', fc_args = ''{}''\<rparr>], responseText = []\<rparr>),
      emptyWorld)
   \<and> fst (POST (insistentEnv ''partial'') emptyWorld helloRequest) =
       \<lparr>status = 200, body = ChatBody ''partial'' None\<rparr>"
proof -
  let ?reply = "\<lambda>t. Inr \<lparr>functionCalls = Some [\<lparr>fc_name = ''nosuch'', fc_args = ''{}''\<rparr>],
                         responseText = t\<rparr> :: string + ModelResponse"
  let ?exchanges = "\<lambda>t. (UserText ''hello'', ?reply t)
      # replicate 10
         (FunctionResponses [\<lparr>fr_name = ''nosuch'', fr_response = ErrorPayload ''Unknown tool''\<rparr>],
          ?reply t)"
  have run: "POST (insistentEnv t) emptyWorld helloRequest =
     (\<lparr>status = 200, body = ChatBody (if t = [] then tooManyToolCalls else t) None\<rparr>,
      ?exchanges t, emptyWorld)" for t
    by (simp add: POST_def insistentEnv_def quietEnv_def emptyWorld_def helloRequest_def
      sendMessage_def callExt_def maxIterations_def proposedCalls_def executeFunctionCalls_def
      executeFunctionCall_def orchestrate.simps numeral_eq_Suc)
  have len: "length (?exchanges t) = 11" for t by simp
  have lst: "snd (last (?exchanges t)) =
      Inr \<lparr>functionCalls = Some [\<lparr>fc_name = ''nosuch'', fc_args = ''{}''\<rparr>], responseText = t\<rparr>" for t
    by (simp add: numeral_eq_Suc)
  show ?thesis
    using run[of "[]"] run[of "''partial''"]
      exhausted_loop_returns_text_or_note[OF run[of "[]"] len lst]
      exhausted_loop_returns_text_or_note[OF run[of "''partial''"] len lst]
    by simp
qed

section \<open>The invocation records returned to the caller\<close>

text \<open>
  Claim C10. A proposed call whose name is not in the resolution table changes nothing but
  the batch of function responses, to which it adds \<open>{error: "Unknown tool"}\<close>. Over a
  whole request that got a first response from the model: the loop makes its exchanges as
  long as the budget lasts and the last response proposes calls; each message it sends
  answers the calls of the response before it, one function response per call in proposal
  order, \<open>{error: "Unknown tool"}\<close> for a name that does not resolve; and when no exchange
  threw, the handler answers 200 with, in \<open>toolCalls\<close>, one record per proposal that
  resolved, in order over all rounds, and none for the others (otherwise it answers 500).
\<close>

theorem unknown_tool_leaves_no_record:
  assumes run: "POST env w req = (response, exchanges, w')"
    and started: "exchanges = (message, Inr first) # rest"
    and table: "toolMap = snd (snd (compiledTools env w req))"
  shows "(\<forall>functionCall st toolCalls functionResponses.
            toolMap (fc_name functionCall) = None \<longrightarrow>
              executeFunctionCall env toolMap (st, toolCalls, functionResponses) functionCall =
                (st, toolCalls,
                 functionResponses @
                   [\<lparr>fr_name = fc_name functionCall, fr_response = ErrorPayload ''Unknown tool''\<rparr>]))
       \<and> loopRun maxIterations first rest
       \<and> list_all2
           (\<lambda>(sent, reply) inspected.
              \<exists>functionResponses. sent = FunctionResponses functionResponses
                \<and> answers toolMap functionResponses (proposedCalls inspected))
           rest (inspectedResponses first rest)
       \<and> (if list_all (\<lambda>(sent, reply). \<not> isl reply) rest then
            \<exists>content records.
               response =
                 \<lparr>status = 200,
                  body = ChatBody content (if records \<noteq> [] then Some records else None)\<rparr>
             \<and> map recordedFor records =
                 concat (map (\<lambda>inspected. List.map_filter (\<lambda>c. toolMap (fc_name c))
                                              (proposedCalls inspected))
                             (inspectedResponses first rest))
          else response = \<lparr>status = 500, body = ErrorBody serverError\<rparr>)"
proof -
  have one: "\<forall>functionCall st toolCalls functionResponses.
            toolMap (fc_name functionCall) = None \<longrightarrow>
              executeFunctionCall env toolMap (st, toolCalls, functionResponses) functionCall =
                (st, toolCalls,
                 functionResponses @
                   [\<lparr>fr_name = fc_name functionCall, fr_response = ErrorPayload ''Unknown tool''\<rparr>])"
    by (simp add: executeFunctionCall_def)
  from POST_run[OF run] started obtain s0 r s userMessage where h:
      "ls_iterationCount s0 = 0" "ls_toolCalls s0 = []" "ls_response s0 = first"
      "chat_exchanges (ls_chat s0) = [(UserText userMessage, Inr first)]"
      "orchestrate env toolMap s0 = (r, s)"
      "exchanges = chat_exchanges (ls_chat s)"
      "r \<noteq> None \<longrightarrow> response = \<lparr>status = 500, body = ErrorBody serverError\<rparr>"
      "r = None \<longrightarrow>
          response =
            \<lparr>status = 200,
             body = ChatBody
               (if maxIterations \<le> ls_iterationCount s
                then orElse (Some (responseText (ls_response s))) tooManyToolCalls
                else ls_finalResponse s)
               (if ls_toolCalls s \<noteq> [] then Some (ls_toolCalls s) else None)\<rparr>"
    unfolding table
  proof (elim disjE exE conjE)
    assume "exchanges = []" with started show ?thesis by simp
  next
    fix userMessage e
    assume "exchanges = [(UserText userMessage, Inl e)]"
    with started show ?thesis by simp
  next
    fix s0 r s userMessage first'
    assume a: "ls_iterationCount s0 = 0" "ls_toolCalls s0 = []" "ls_response s0 = first'"
      "chat_exchanges (ls_chat s0) = [(UserText userMessage, Inr first')]"
      "orchestrate env (snd (snd (compiledTools env w req))) s0 = (r, s)"
      "exchanges = chat_exchanges (ls_chat s)"
      "r \<noteq> None \<longrightarrow> response = \<lparr>status = 500, body = ErrorBody serverError\<rparr>"
      "r = None \<longrightarrow>
          response =
            \<lparr>status = 200,
             body = ChatBody
               (if maxIterations \<le> ls_iterationCount s
                then orElse (Some (responseText (ls_response s))) tooManyToolCalls
                else ls_finalResponse s)
               (if ls_toolCalls s \<noteq> [] then Some (ls_toolCalls s) else None)\<rparr>"
    assume that: "\<And>s0 userMessage r s.
        ls_iterationCount s0 = 0 \<Longrightarrow> ls_toolCalls s0 = [] \<Longrightarrow> ls_response s0 = first \<Longrightarrow>
        chat_exchanges (ls_chat s0) = [(UserText userMessage, Inr first)] \<Longrightarrow>
        orchestrate env (snd (snd (compiledTools env w req))) s0 = (r, s) \<Longrightarrow>
        exchanges = chat_exchanges (ls_chat s) \<Longrightarrow>
        r \<noteq> None \<longrightarrow> response = \<lparr>status = 500, body = ErrorBody serverError\<rparr> \<Longrightarrow>
        r = None \<longrightarrow>
          response =
            \<lparr>status = 200,
             body = ChatBody
               (if maxIterations \<le> ls_iterationCount s
                then orElse (Some (responseText (ls_response s))) tooManyToolCalls
                else ls_finalResponse s)
               (if ls_toolCalls s \<noteq> [] then Some (ls_toolCalls s) else None)\<rparr> \<Longrightarrow> thesis"
    obtain more where ext: "chat_exchanges (ls_chat (snd (orchestrate env (snd (snd (compiledTools env w req))) s0)))
         = chat_exchanges (ls_chat s0) @ more"
      using orchestrate_exchanges_extend[of env "snd (snd (compiledTools env w req))" s0] by blast
    have "exchanges = (UserText userMessage, Inr first') # more"
      using ext a(4,5,6) by simp
    with started have "first' = first" by simp
    with a that show ?thesis by blast
  qed
  have os: "snd (orchestrate env toolMap s0) = s" "fst (orchestrate env toolMap s0) = r"
    using h(5) by simp_all
  from orchestrate_run[of env toolMap s0, unfolded os h(1,2,3,4)] obtain more records where m:
     "chat_exchanges (ls_chat s) = [(UserText userMessage, Inr first)] @ more"
     "ls_toolCalls s = [] @ records"
     "loopRun (maxIterations - 0) first more"
     "list_all2 (\<lambda>(message, reply) response.
                  \<exists>frs. message = FunctionResponses frs \<and> answers toolMap frs (proposedCalls response))
        more (inspectedResponses first more)"
     "map recordedFor records =
       concat (map (\<lambda>response. List.map_filter (\<lambda>c. toolMap (fc_name c)) (proposedCalls response))
                   (inspectedResponses first more))"
     "r = None \<longleftrightarrow> list_all (\<lambda>(message, reply). \<not> isl reply) more"
    by (elim exE conjE) (rule that)
  have rest: "more = rest" using m(1) h(6) started by simp
  have lr: "loopRun maxIterations first rest" using m(3) rest by simp
  have sent: "list_all2
           (\<lambda>(sent, reply) inspected.
              \<exists>functionResponses. sent = FunctionResponses functionResponses
                \<and> answers toolMap functionResponses (proposedCalls inspected))
           rest (inspectedResponses first rest)"
    using m(4) rest by simp
  have outcome: "if list_all (\<lambda>(sent, reply). \<not> isl reply) rest then
            \<exists>content records.
               response =
                 \<lparr>status = 200,
                  body = ChatBody content (if records \<noteq> [] then Some records else None)\<rparr>
             \<and> map recordedFor records =
                 concat (map (\<lambda>inspected. List.map_filter (\<lambda>c. toolMap (fc_name c))
                                              (proposedCalls inspected))
                             (inspectedResponses first rest))
          else response = \<lparr>status = 500, body = ErrorBody serverError\<rparr>"
  proof (cases "list_all (\<lambda>(sent, reply). \<not> isl reply) rest")
    case True
    with m(6) rest have "r = None" by simp
    with h(8) m(2) have "response =
            \<lparr>status = 200,
             body = ChatBody
               (if maxIterations \<le> ls_iterationCount s
                then orElse (Some (responseText (ls_response s))) tooManyToolCalls
                else ls_finalResponse s)
               (if records \<noteq> [] then Some records else None)\<rparr>" by simp
    with m(5) rest True show ?thesis by (simp only: if_True) blast
  next
    case False
    with m(6) rest have "r \<noteq> None" by simp
    with h(7) False show ?thesis by simp
  qed
  from one lr sent outcome show ?thesis by (intro conjI)
qed

theorem unknown_tool_leaves_no_record_witness:
  "POST scriptedEnv mathWorld mathRequest =
     (\<lparr>status = 200,
       body = ChatBody ''42''
         (Some [\<lparr>tc_id = ''tool-0-k3j9x2m'', tc_serverId = ''math'', tc_serverName = ''Mathematics'',
                 tc_toolName = ''mul'', tc_args = ''{}'', tc_status = Success,
                 tc_result =
                   Some \<lparr>r_content = [\<lparr>c_type = ''text'', c_text = Some ''42'', c_data = None,
                                       c_mimeType = None, c_url = None\<rparr>],
                         r_isError = Some False\<rparr>,
                 tc_error = None, tc_startTime = Some 0, tc_endTime = Some 0\<rparr>])\<rparr>,
      [(UserText ''what is 6 times 7'',
        Inr \<lparr>functionCalls = Some [strayCall, mulCall], responseText = []\<rparr>),
       (FunctionResponses
          [\<lparr>fr_name = ''weather__today'', fr_response = ErrorPayload ''Unknown tool''\<rparr>,
           \<lparr>fr_name = ''math__mul'', fr_response = ResultPayload ''42''\<rparr>],
        Inr \<lparr>functionCalls = None, responseText = ''42''\<rparr>)],
      mathWorld)
   \<and> snd (snd (compiledTools scriptedEnv mathWorld mathRequest)) = [''math__mul'' \<mapsto> mathInfo]
   \<and> executeFunctionCall scriptedEnv [''math__mul'' \<mapsto> mathInfo] (mathWorld, [], []) strayCall =
       (mathWorld, [], [\<lparr>fr_name = ''weather__today'', fr_response = ErrorPayload ''Unknown tool''\<rparr>])
   \<and> loopRun maxIterations \<lparr>functionCalls = Some [strayCall, mulCall], responseText = []\<rparr>
       [(FunctionResponses
          [\<lparr>fr_name = ''weather__today'', fr_response = ErrorPayload ''Unknown tool''\<rparr>,
           \<lparr>fr_name = ''math__mul'', fr_response = ResultPayload ''42''\<rparr>],
        Inr \<lparr>functionCalls = None, responseText = ''42''\<rparr>)]
   \<and> answers [''math__mul'' \<mapsto> mathInfo]
       [\<lparr>fr_name = ''weather__today'', fr_response = ErrorPayload ''Unknown tool''\<rparr>,
        \<lparr>fr_name = ''math__mul'', fr_response = ResultPayload ''42''\<rparr>]
       [strayCall, mulCall]"
proof -
  have table: "snd (snd (compiledTools scriptedEnv mathWorld mathRequest)) = [''math__mul'' \<mapsto> mathInfo]"
    by (simp add: compiledTools_def mathRequest_def registerTools_def registerTool_def isConnected_def
      map_has_def mathWorld_def listTools_def getClient_def callExt_def scriptedEnv_def mathEnv_def
      quietEnv_def plainTool_def convertMCPToolToFunctionDeclaration_def functionName_def mathInfo_def
      sseInstance_def Let_def)
  have run: "POST scriptedEnv mathWorld mathRequest =
     (\<lparr>status = 200,
       body = ChatBody ''42''
         (Some [\<lparr>tc_id = ''tool-0-k3j9x2m'', tc_serverId = ''math'', tc_serverName = ''Mathematics'',
                 tc_toolName = ''mul'', tc_args = ''{}'', tc_status = Success,
                 tc_result =
                   Some \<lparr>r_content = [\<lparr>c_type = ''text'', c_text = Some ''42'', c_data = None,
                                       c_mimeType = None, c_url = None\<rparr>],
                         r_isError = Some False\<rparr>,
                 tc_error = None, tc_startTime = Some 0, tc_endTime = Some 0\<rparr>])\<rparr>,
      [(UserText ''what is 6 times 7'',
        Inr \<lparr>functionCalls = Some [strayCall, mulCall], responseText = []\<rparr>),
       (FunctionResponses
          [\<lparr>fr_name = ''weather__today'', fr_response = ErrorPayload ''Unknown tool''\<rparr>,
           \<lparr>fr_name = ''math__mul'', fr_response = ResultPayload ''42''\<rparr>],
        Inr \<lparr>functionCalls = None, responseText = ''42''\<rparr>)],
      mathWorld)"
    by (simp add: POST_def mathRequest_def registerTools_def registerTool_def isConnected_def
      map_has_def mathWorld_def listTools_def getClient_def callExt_def scriptedEnv_def mathEnv_def
      quietEnv_def plainTool_def convertMCPToolToFunctionDeclaration_def functionName_def
      sseInstance_def Let_def sendMessage_def orchestrate.simps maxIterations_def proposedCalls_def
      executeFunctionCalls_def executeFunctionCall_def strayCall_def mulCall_def callTool_def
      fortyTwo_def normalizeContent_def rehome_def rehomeItem_def formatToolResult_def
      showInt_zero substring_def)
  show ?thesis
    using table
      unknown_tool_leaves_no_record[OF run refl table[symmetric]]
    by (simp add: run strayCall_def proposedCalls_def maxIterations_def)
qed

end
